theory Spec2Isabelle
  imports Main "HOL-Library.Code_Target_Nat"
begin

section \<open>Droppy: the file server of \<^verbatim>\<open>server.js\<close>\<close>

text \<open>
  The development follows \<^verbatim>\<open>server.js\<close> function by function. Strings are
  \<^typ>\<open>string\<close>, byte counts and listing indices are \<^typ>\<open>nat\<close>, a value that may be
  \<^verbatim>\<open>undefined\<close> is an \<^typ>\<open>'a option\<close>, a thrown exception is the left summand of
  a result, and every side effect of a handler (a log line, a push to a socket, a
  response header, a file-system call) is appended to a trace carried in the server state.
\<close>

subsection \<open>Numbers as text\<close>

text \<open>
  JavaScript's conversion of a non-negative integer Number below \<open>10^21\<close> to a string is
  its decimal numeral, as in \<^verbatim>\<open>bytes + ' B'\<close> and in the keys of \<^verbatim>\<open>fileList\<close>.
\<close>

definition digit_char :: "nat \<Rightarrow> char" where
  "digit_char d = ''0123456789'' ! (d mod 10)"

fun show_nat :: "nat \<Rightarrow> string" where
  "show_nat n = (if n < 10 then [digit_char n] else show_nat (n div 10) @ [digit_char (n mod 10)])"

declare show_nat.simps [simp del]

definition is_digit :: "char \<Rightarrow> bool" where
  "is_digit c = (c \<in> set ''0123456789'')"

text \<open>
  \<^verbatim>\<open>x.toFixed(2)\<close> for a Number \<open>x = num / den\<close> with \<open>0 \<le> x\<close>, after the language
  standard. From \<open>10^21\<close> on, the result is that of the language's conversion of a Number
  to a string, which is in exponent notation there; that text is made outside the program
  and is the parameter \<open>exponent_text\<close>. Below \<open>10^21\<close>: let \<open>n\<close> be the integer for
  which \<open>n / 100 - x\<close> is as close to zero as possible, the larger one if there are two;
  write \<open>n\<close> in decimal, pad it on the left with zeros to three characters when it has two
  or fewer, and put the point before the last two characters. The division
  \<^verbatim>\<open>bytes / kib\<close> of an integer-valued Number by a power of two is exact, so \<open>x\<close> is
  the rational \<open>num / den\<close> itself.
\<close>

definition nearest_hundredth :: "nat \<Rightarrow> nat \<Rightarrow> nat" where
  "nearest_hundredth num den = (200 * num + den) div (2 * den)"

definition toFixed2 :: "(nat \<Rightarrow> nat \<Rightarrow> string) \<Rightarrow> nat \<Rightarrow> nat \<Rightarrow> string" where
  "toFixed2 exponent_text num den =
     (if 10 ^ 21 * den \<le> num then exponent_text num den
      else
        let n = nearest_hundredth num den;
            m = show_nat n;
            m = (if length m \<le> 2 then replicate (3 - length m) (CHR ''0'') @ m else m);
            k = length m
        in take (k - 2) m @ ''.'' @ drop (k - 2) m)"

subsection \<open>Helper function for size values\<close>

definition kib :: nat where "kib = 1024"
definition mib :: nat where "mib = kib * 1024"
definition gib :: nat where "gib = mib * 1024"
definition tib :: nat where "tib = gib * 1024"

text \<open>
  \<^verbatim>\<open>convertToSI(bytes)\<close> on an integer byte count (\<^verbatim>\<open>stats.size\<close>, the size of a
  cached resource). The last branch of the source is reached by no such count; it is kept.
\<close>

definition convertToSI :: "(nat \<Rightarrow> nat \<Rightarrow> string) \<Rightarrow> nat \<Rightarrow> string" where
  "convertToSI exponent_text bytes =
     (if 0 \<le> bytes \<and> bytes < kib then show_nat bytes @ '' B''
      else if bytes \<ge> kib \<and> bytes < mib then toFixed2 exponent_text bytes kib @ '' KiB''
      else if bytes \<ge> mib \<and> bytes < gib then toFixed2 exponent_text bytes mib @ '' MiB''
      else if bytes \<ge> gib \<and> bytes < tib then toFixed2 exponent_text bytes gib @ '' GiB''
      else if bytes \<ge> tib then toFixed2 exponent_text bytes tib @ '' TiB''
      else show_nat bytes @ '' B'')"

text \<open>The reading of the specification: the unit is the largest power of 1024, up to the
  fourth, that the count reaches, and a rendering with two decimals is a non-empty run of
  digits, a point and two digits.\<close>

definition unit_exp :: "nat \<Rightarrow> nat" where
  "unit_exp bytes =
     (if bytes < 1024 then 0 else if bytes < 1024 ^ 2 then 1 else if bytes < 1024 ^ 3 then 2
      else if bytes < 1024 ^ 4 then 3 else 4)"

definition unit_name :: "nat \<Rightarrow> string" where
  "unit_name k = [''B'', ''KiB'', ''MiB'', ''GiB'', ''TiB''] ! k"

definition two_decimals :: "string \<Rightarrow> bool" where
  "two_decimals s =
     (let k = length s
      in 4 \<le> k \<and> s ! (k - 3) = CHR ''.'' \<and> list_all is_digit (take (k - 3) s)
         \<and> list_all is_digit (drop (k - 2) s))"

subsection \<open>Errors, file metadata, configuration\<close>

text \<open>
  An \<^verbatim>\<open>Error\<close> object as \<^verbatim>\<open>handleError\<close> and the startup code read it: its
  \<^verbatim>\<open>code\<close>, \<^verbatim>\<open>message\<close> and \<^verbatim>\<open>stack\<close>; an empty string is a falsy field.
\<close>

record js_error =
  code :: string
  message :: string
  stack :: string

definition TypeError :: "string \<Rightarrow> js_error" where
  "TypeError msg = \<lparr>code = [], message = msg, stack = ''TypeError: '' @ msg\<rparr>"

definition ReferenceError :: "string \<Rightarrow> js_error" where
  "ReferenceError msg = \<lparr>code = [], message = msg, stack = ''ReferenceError: '' @ msg\<rparr>"

text \<open>What a handler run by the event loop does: it returns, or it throws an exception that
  nothing in the handler catches.\<close>

datatype outcome = Returned | Threw js_error

text \<open>An \<^verbatim>\<open>fs.Stats\<close> object, as far as the program reads it.\<close>

record stats =
  isFile :: bool
  isDirectory :: bool
  size_stats :: nat

text \<open>The object literal \<^verbatim>\<open>{"name": name, "type": type, "size": stats.size}\<close>.\<close>

record entry =
  name :: string
  type :: string
  size_entry :: nat

text \<open>\<^verbatim>\<open>config.json\<close> is read at load time; the fields the program uses.\<close>

record config =
  filesDir :: string
  port :: nat
  useSSL :: bool
  httpsKey :: string
  httpsCert :: string

definition readInterval :: nat where
  "readInterval = 200"

subsection \<open>The server state and its effects\<close>

text \<open>The only callback ever handed to \<^verbatim>\<open>prepareFileList\<close> is
  \<^verbatim>\<open>function(){ SendUpdate(); }\<close>; \<^verbatim>\<open>None\<close> stands for \<^verbatim>\<open>undefined\<close>.\<close>

datatype callback = SendUpdateCb

text \<open>
  Effects visible outside the program, in the order they happen. \<open>Push c e p\<close> is the
  delivery of event \<open>e\<close> with payload \<open>p\<close> to the connected socket \<open>c\<close>; the response
  effects belong to the request being handled.
\<close>

datatype effect =
    Log string
  | Push nat string string
  | Listen nat
  | IoListen
  | Watch string
  | OnConnection
  | Readdir string
  | Stat string
  | Mkdir string
  | Unlink string
  | Rmdir string
  | WriteHead nat "(string \<times> string) list"
  | End "string option"
  | Pipe string

text \<open>
  The globals \<^verbatim>\<open>fileList\<close> and \<^verbatim>\<open>last\<close>, the sockets that socket.io holds connected,
  the timers set and not yet fired or cleared (identifier and due time), the
  \<^verbatim>\<open>fs.readdir\<close> requests that \<^verbatim>\<open>run\<close> has issued and whose callback has not run yet
  (each with the \<^verbatim>\<open>callback\<close> its closure captured), whether the HTTP server holds a bound
  listening socket, and the trace of effects. \<^verbatim>\<open>fileList\<close> is an object whose keys are
  listing indices; a JavaScript object enumerates such keys in ascending numeric order, so
  it is an association list kept in ascending key order.
\<close>

record server =
  fileList :: "(nat \<times> entry) list"
  last_date :: "nat option"
  sockets :: "nat list"
  timers :: "(nat \<times> nat) list"
  pending :: "callback option list"
  listening :: bool
  trace :: "effect list"

definition init :: server where
  "init = \<lparr>fileList = [], last_date = None, sockets = [], timers = [], pending = [],
           listening = False, trace = []\<rparr>"

definition fx :: "effect \<Rightarrow> server \<Rightarrow> server" where
  "fx e s = s\<lparr>trace := trace s @ [e]\<rparr>"

text \<open>\<^verbatim>\<open>fileList[i] = v\<close> on an object with integer keys.\<close>

fun obj_set :: "nat \<Rightarrow> 'v \<Rightarrow> (nat \<times> 'v) list \<Rightarrow> (nat \<times> 'v) list" where
  "obj_set i v [] = [(i, v)]"
| "obj_set i v ((j, w) # r) =
     (if i < j then (i, v) # (j, w) # r
      else if i = j then (i, v) # r
      else (j, w) # obj_set i v r)"

subsection \<open>Logging and error handling helpers\<close>

text \<open>\<^verbatim>\<open>log(msg)\<close> prints \<^verbatim>\<open>getTimestamp() + msg\<close>; the trace keeps \<open>msg\<close>.\<close>

definition log :: "string \<Rightarrow> server \<Rightarrow> server" where
  "log msg s = fx (Log msg) s"

definition handleError :: "js_error \<Rightarrow> server \<Rightarrow> server" where
  "handleError err s =
     (let s = (if message err \<noteq> [] then log (message err) s else s)
      in if stack err \<noteq> [] then log (stack err) s else s)"

text \<open>The listener \<^verbatim>\<open>process.on("uncaughtException", ...)\<close>, which the event loop runs
  when a handler throws.\<close>

definition uncaughtException :: "js_error \<Rightarrow> server \<Rightarrow> server" where
  "uncaughtException err s =
     handleError err (log ''=============== Uncaught exception! ==============='' s)"

definition run_handler :: "outcome \<times> server \<Rightarrow> server" where
  "run_handler r = (case r of (Returned, s) \<Rightarrow> s | (Threw err, s) \<Rightarrow> uncaughtException err s)"

subsection \<open>JSON text\<close>

text \<open>
  \<^verbatim>\<open>JSON.stringify\<close> on the values the program builds: strings, integer numbers and
  plain objects (arrays are there for the specification's reading of the payload). A
  string is quoted with the escapes of the language standard; characters are bytes here,
  and bytes from \<open>0x80\<close> on pass unchanged.
\<close>

datatype json = JString string | JNumber nat | JObject "(string \<times> json) list" | JArray "json list"

definition hex_digit :: "nat \<Rightarrow> char" where
  "hex_digit d = ''0123456789abcdef'' ! (d mod 16)"

definition quote_char :: "char \<Rightarrow> string" where
  "quote_char c =
     (if c = CHR 0x22 then [CHR 0x5C, CHR 0x22]
      else if c = CHR 0x5C then [CHR 0x5C, CHR 0x5C]
      else if c = CHR 0x08 then [CHR 0x5C, CHR ''b'']
      else if c = CHR 0x0C then [CHR 0x5C, CHR ''f'']
      else if c = CHR 0x0A then [CHR 0x5C, CHR ''n'']
      else if c = CHR 0x0D then [CHR 0x5C, CHR ''r'']
      else if c = CHR 0x09 then [CHR 0x5C, CHR ''t'']
      else if of_char c < (32::nat)
        then [CHR 0x5C, CHR ''u'', CHR ''0'', CHR ''0'', hex_digit (of_char c div 16), hex_digit (of_char c)]
      else [c])"

definition quote :: "string \<Rightarrow> string" where
  "quote s = [CHR 0x22] @ concat (map quote_char s) @ [CHR 0x22]"

fun intercalate :: "string \<Rightarrow> string list \<Rightarrow> string" where
  "intercalate sep [] = []"
| "intercalate sep [x] = x"
| "intercalate sep (x # y # r) = x @ sep @ intercalate sep (y # r)"

fun stringify :: "json \<Rightarrow> string" where
  "stringify (JString s) = quote s"
| "stringify (JNumber n) = show_nat n"
| "stringify (JObject ms) =
     ''{'' @ intercalate '','' (map (\<lambda>(k, v). quote k @ '':'' @ stringify v) ms) @ ''}''"
| "stringify (JArray vs) = ''['' @ intercalate '','' (map stringify vs) @ '']''"

definition entry_json :: "entry \<Rightarrow> json" where
  "entry_json e =
     JObject [(''name'', JString (name e)), (''type'', JString (type e)),
              (''size'', JNumber (size_entry e))]"

definition fileList_json :: "(nat \<times> entry) list \<Rightarrow> json" where
  "fileList_json fl = JObject (map (\<lambda>(i, e). (show_nat i, entry_json e)) fl)"

subsection \<open>Send file list JSON over websocket\<close>

text \<open>\<^verbatim>\<open>io.sockets.emit(event, payload)\<close> delivers to every connected socket.\<close>

definition emit :: "string \<Rightarrow> string \<Rightarrow> server \<Rightarrow> server" where
  "emit event payload s = s\<lparr>trace := trace s @ map (\<lambda>c. Push c event payload) (sockets s)\<rparr>"

definition SendUpdate :: "server \<Rightarrow> server" where
  "SendUpdate s = emit ''UPDATE_FILES'' (stringify (fileList_json (fileList s))) s"

subsection \<open>underscore's debounce\<close>

text \<open>
  \<^verbatim>\<open>debounce(func, wait, immediate)\<close> returns a closure over its three arguments and the
  variable \<^verbatim>\<open>timeout\<close>; the closure is the record, its body is \<open>debounced_call\<close> and the
  timer's function is \<open>later\<close>. A function value is the closure \<^verbatim>\<open>run\<close> of one call
  of \<^verbatim>\<open>prepareFileList\<close>; \<^verbatim>\<open>None\<close> is \<^verbatim>\<open>undefined\<close>.
\<close>

datatype jsfun = RunFn "callback option"

record debounced =
  func :: "jsfun option"
  wait :: nat
  immediate :: bool
  timeout :: "nat option"

definition debounce :: "jsfun option \<Rightarrow> nat \<Rightarrow> bool \<Rightarrow> debounced" where
  "debounce f w imm = \<lparr>func = f, wait = w, immediate = imm, timeout = None\<rparr>"

definition clearTimeout :: "nat option \<Rightarrow> server \<Rightarrow> server" where
  "clearTimeout t s =
     (case t of None \<Rightarrow> s | Some k \<Rightarrow> s\<lparr>timers := filter (\<lambda>(j, due). j \<noteq> k) (timers s)\<rparr>)"

definition setTimeout :: "nat \<Rightarrow> server \<Rightarrow> nat \<times> server" where
  "setTimeout due s =
     (let k = Suc (fold max (map fst (timers s)) 0) in (k, s\<lparr>timers := timers s @ [(k, due)]\<rparr>))"

subsection \<open>Read the directory's content and store it in the fileList object\<close>

text \<open>
  \<^verbatim>\<open>run()\<close>: the assignments to \<^verbatim>\<open>last\<close> and \<^verbatim>\<open>fileList\<close> and the call of
  \<^verbatim>\<open>fs.readdir\<close>, whose callback runs later, from the event loop.
\<close>

definition run :: "config \<Rightarrow> nat \<Rightarrow> callback option \<Rightarrow> server \<Rightarrow> server" where
  "run cfg now cb s =
     fx (Readdir (filesDir cfg)) (s\<lparr>last_date := Some now, fileList := [], pending := pending s @ [cb]\<rparr>)"

text \<open>Calling a function value: \<^verbatim>\<open>func.apply(context, args)\<close>.\<close>

definition apply_func :: "config \<Rightarrow> nat \<Rightarrow> jsfun option \<Rightarrow> server \<Rightarrow> outcome \<times> server" where
  "apply_func cfg now f s =
     (case f of
        None \<Rightarrow> (Threw (TypeError ''Cannot read property apply of undefined''), s)
      | Some (RunFn cb) \<Rightarrow> (Returned, run cfg now cb s))"

definition later :: "config \<Rightarrow> nat \<Rightarrow> debounced \<Rightarrow> server \<Rightarrow> debounced \<times> outcome \<times> server" where
  "later cfg now d s =
     (let s = clearTimeout (timeout d) s; d = d\<lparr>timeout := None\<rparr>
      in if \<not> immediate d then (d, apply_func cfg now (func d) s) else (d, Returned, s))"

definition debounced_call :: "config \<Rightarrow> nat \<Rightarrow> debounced \<Rightarrow> server \<Rightarrow> debounced \<times> outcome \<times> server" where
  "debounced_call cfg now d s =
     (let callNow = (immediate d \<and> timeout d = None);
          s = clearTimeout (timeout d) s;
          (k, s) = setTimeout (now + wait d) s;
          d = d\<lparr>timeout := Some k\<rparr>
      in if callNow then (d, apply_func cfg now (func d) s) else (d, Returned, s))"

text \<open>
  \<^verbatim>\<open>prepareFileList(callback)\<close> ends with \<^verbatim>\<open>debounce(run(),readInterval)\<close>: the argument
  \<^verbatim>\<open>run()\<close> is evaluated first, which runs \<^verbatim>\<open>run\<close> at once and yields \<^verbatim>\<open>undefined\<close>;
  \<^verbatim>\<open>debounce\<close> then builds a closure around \<^verbatim>\<open>undefined\<close>, with \<^verbatim>\<open>immediate\<close> missing
  (falsy), and the closure is dropped without being called.
\<close>

definition prepareFileList :: "config \<Rightarrow> nat \<Rightarrow> callback option \<Rightarrow> server \<Rightarrow> server" where
  "prepareFileList cfg now cb s =
     (let s = run cfg now cb s;
          dropped = debounce None readInterval False
      in s)"

text \<open>
  One pass of the loop of the \<^verbatim>\<open>fs.readdir\<close> callback, and the loop from index \<open>i\<close>
  on. \<^verbatim>\<open>var name = files[i], type;\<close> declares \<^verbatim>\<open>type\<close> for the whole callback and
  assigns nothing to it, so the variable keeps its value from one pass to the next; it is
  \<^verbatim>\<open>undefined\<close> (\<open>None\<close>) when the callback starts. \<open>statSync\<close> is the file system at the time of the callback: the
  \<^verbatim>\<open>Stats\<close> of a path, or the exception \<^verbatim>\<open>fs.statSync\<close> throws.
\<close>

definition loop_body ::
  "config \<Rightarrow> (string \<Rightarrow> js_error + stats) \<Rightarrow> string \<Rightarrow> nat \<Rightarrow> string option \<Rightarrow> server
     \<Rightarrow> string option \<times> server"
where
  "loop_body cfg statSync nm i ty s =
     (case statSync (filesDir cfg @ nm) of
        Inl error \<Rightarrow> (ty, handleError error s)
      | Inr st \<Rightarrow>
          (let ty = (if isFile st then Some ''f'' else ty);
               ty = (if isDirectory st then Some ''d'' else ty)
           in case ty of
                None \<Rightarrow> (ty, s)
              | Some t \<Rightarrow>
                  if t = ''f'' \<or> t = ''d''
                  then (ty, s\<lparr>fileList :=
                                obj_set i \<lparr>name = nm, type = t, size_entry = size_stats st\<rparr> (fileList s)\<rparr>)
                  else (ty, s)))"

fun fill_loop ::
  "config \<Rightarrow> (string \<Rightarrow> js_error + stats) \<Rightarrow> string list \<Rightarrow> nat \<Rightarrow> string option \<Rightarrow> server \<Rightarrow> server"
where
  "fill_loop cfg statSync [] i ty s = s"
| "fill_loop cfg statSync (nm # rest) i ty s =
     (case loop_body cfg statSync nm i ty s of
        (ty, s) \<Rightarrow> fill_loop cfg statSync rest (Suc i) ty s)"

text \<open>
  The callback of \<^verbatim>\<open>fs.readdir\<close> in \<^verbatim>\<open>run\<close>, which receives either an error (and then no
  \<^verbatim>\<open>files\<close>) or the listing. After an error \<^verbatim>\<open>files.length\<close> reads a property of
  \<^verbatim>\<open>undefined\<close> and throws.
\<close>

definition call_callback :: "callback option \<Rightarrow> server \<Rightarrow> server" where
  "call_callback cb s = (case cb of None \<Rightarrow> s | Some SendUpdateCb \<Rightarrow> SendUpdate s)"

definition readdir_cb ::
  "config \<Rightarrow> (string \<Rightarrow> js_error + stats) \<Rightarrow> callback option \<Rightarrow> js_error + string list \<Rightarrow> server
     \<Rightarrow> outcome \<times> server"
where
  "readdir_cb cfg statSync cb r s =
     (case r of
        Inl err \<Rightarrow> (Threw (TypeError ''Cannot read property length of undefined''), handleError err s)
      | Inr files \<Rightarrow> (Returned, call_callback cb (fill_loop cfg statSync files 0 None s)))"

text \<open>The event loop completes the oldest outstanding \<^verbatim>\<open>fs.readdir\<close> of \<^verbatim>\<open>run\<close>.\<close>

definition readdir_done ::
  "config \<Rightarrow> (string \<Rightarrow> js_error + stats) \<Rightarrow> js_error + string list \<Rightarrow> server \<Rightarrow> server"
where
  "readdir_done cfg statSync r s =
     (case pending s of
        [] \<Rightarrow> s
      | cb # rest \<Rightarrow> run_handler (readdir_cb cfg statSync cb r (s\<lparr>pending := rest\<rparr>)))"

text \<open>Readings need not complete in the order they were issued: the event loop completes
  the outstanding \<^verbatim>\<open>fs.readdir\<close> of \<^verbatim>\<open>run\<close> at position \<open>n\<close>.\<close>

definition readdir_done_at ::
  "config \<Rightarrow> (string \<Rightarrow> js_error + stats) \<Rightarrow> nat \<Rightarrow> js_error + string list \<Rightarrow> server \<Rightarrow> server"
where
  "readdir_done_at cfg statSync n r s =
     (if n < length (pending s)
      then run_handler
             (readdir_cb cfg statSync (pending s ! n) r
                (s\<lparr>pending := take n (pending s) @ drop (Suc n) (pending s)\<rparr>))
      else s)"

subsection \<open>Watch the directory for realtime changes and send them to the client\<close>

definition createWatcher :: "config \<Rightarrow> server \<Rightarrow> server" where
  "createWatcher cfg s = fx (Watch (filesDir cfg)) s"

definition on_watch :: "config \<Rightarrow> nat \<Rightarrow> string \<Rightarrow> server \<Rightarrow> server" where
  "on_watch cfg now event s =
     (if event = ''change'' \<or> event = ''rename'' then prepareFileList cfg now (Some SendUpdateCb) s
      else s)"

subsection \<open>Websocket listener\<close>

definition setupSockets :: "server \<Rightarrow> server" where
  "setupSockets s = fx OnConnection s"

text \<open>socket.io adds a socket to the connected ones before it runs the connection listener,
  and removes it at disconnection.\<close>

definition on_connection :: "nat \<Rightarrow> server \<Rightarrow> server" where
  "on_connection c s = s\<lparr>sockets := sockets s @ [c]\<rparr>"

definition on_disconnect :: "nat \<Rightarrow> server \<Rightarrow> server" where
  "on_disconnect c s = s\<lparr>sockets := removeAll c (sockets s)\<rparr>"

text \<open>The listeners of one socket; \<open>socket\<close> is the socket they were registered on.\<close>

definition on_REQUEST_UPDATE :: "nat \<Rightarrow> server \<Rightarrow> server" where
  "on_REQUEST_UPDATE socket s = SendUpdate s"

definition on_CREATE_FOLDER :: "config \<Rightarrow> nat \<Rightarrow> string \<Rightarrow> server \<Rightarrow> server" where
  "on_CREATE_FOLDER cfg socket nm s = fx (Mkdir (filesDir cfg @ nm)) s"

definition mkdir_cb :: "js_error option \<Rightarrow> server \<Rightarrow> server" where
  "mkdir_cb err s = (case err of None \<Rightarrow> s | Some e \<Rightarrow> handleError e s)"

subsection \<open>GET/POST handlers\<close>

text \<open>
  \<^verbatim>\<open>unescape\<close> (percent decoding), \<^verbatim>\<open>mime.lookup\<close> and the exponent notation of large
  Numbers come from outside the program and are parameters. \<open>socket\<close> is the text
  \<^verbatim>\<open>remoteAddress + ":" + remotePort\<close>.
\<close>

definition file_path :: "config \<Rightarrow> (string \<Rightarrow> string) \<Rightarrow> string \<Rightarrow> string" where
  "file_path cfg unescape url = filesDir cfg @ unescape (drop (length (filesDir cfg) - 1) url)"

definition handleFileRequest :: "config \<Rightarrow> (string \<Rightarrow> string) \<Rightarrow> string \<Rightarrow> server \<Rightarrow> server" where
  "handleFileRequest cfg unescape url s =
     (let path = file_path cfg unescape url in if path \<noteq> [] then fx (Stat path) s else s)"

text \<open>
  The statements of the \<^verbatim>\<open>fs.stat\<close> callback after its \<^verbatim>\<open>if(err)\<close> block. With
  \<^verbatim>\<open>stats\<close> undefined, the argument \<^verbatim>\<open>stats.size\<close> of the \<^verbatim>\<open>log\<close> line throws before
  anything is logged.
\<close>

definition send_file ::
  "(nat \<Rightarrow> nat \<Rightarrow> string) \<Rightarrow> string \<Rightarrow> string \<Rightarrow> string \<Rightarrow> stats option \<Rightarrow> server \<Rightarrow> outcome \<times> server"
where
  "send_file exponent_text socket path mimeType stats s =
     (case stats of
        None \<Rightarrow> (Threw (TypeError ''Cannot read property size of undefined''), s)
      | Some st \<Rightarrow>
          (let s = log (''SEND: '' @ socket @ [CHR 0x09, CHR 0x09] @ path @ '' (''
                        @ convertToSI exponent_text (size_stats st) @ '')'') s;
               s = fx (WriteHead 200 [(''Content-Type'', mimeType),
                                      (''Content-Length'', show_nat (size_stats st))]) s
           in (Returned, fx (Pipe path) s)))"

text \<open>The block \<^verbatim>\<open>if(err) {...}\<close> has no \<^verbatim>\<open>return\<close>: the callback goes on with the
  statements after it.\<close>

definition handleFileRequest_cb ::
  "(nat \<Rightarrow> nat \<Rightarrow> string) \<Rightarrow> string \<Rightarrow> string \<Rightarrow> string \<Rightarrow> js_error + stats \<Rightarrow> server
     \<Rightarrow> outcome \<times> server"
where
  "handleFileRequest_cb exponent_text socket path mimeType r s =
     (case r of
        Inl err \<Rightarrow>
          (let s = fx (WriteHead 500 []) s;
               s = fx (End None) s;
               s = handleError err s;
               s = SendUpdate s
           in send_file exponent_text socket path mimeType None s)
      | Inr st \<Rightarrow> send_file exponent_text socket path mimeType (Some st) s)"

text \<open>\<^verbatim>\<open>req.url.replace(/^\/delete\//,"")\<close>.\<close>

definition strip_delete :: "string \<Rightarrow> string" where
  "strip_delete url = (if take 8 url = ''/delete/'' then drop 8 url else url)"

definition delete_path :: "config \<Rightarrow> (string \<Rightarrow> string) \<Rightarrow> string \<Rightarrow> string" where
  "delete_path cfg unescape url = filesDir cfg @ unescape (strip_delete url)"

definition handleDeleteRequest :: "config \<Rightarrow> server \<Rightarrow> server" where
  "handleDeleteRequest cfg s = fx (Readdir (filesDir cfg)) s"

text \<open>
  The callback of the \<^verbatim>\<open>fs.readdir\<close> of \<^verbatim>\<open>handleDeleteRequest\<close>. \<^verbatim>\<open>fs.unlink\<close> and
  \<^verbatim>\<open>fs.rmdir\<close> are called without a callback, inside the \<^verbatim>\<open>try\<close>. Whether such a call
  throws at once depends on the runtime (a Node that refuses a missing callback throws, an
  older one goes on), so \<open>removal\<close> gives the exception that the call throws, if any; a
  call that throws has not started the removal, and a call that returns is not looked at
  again. \<open>delete_catch\<close> is the \<^verbatim>\<open>catch\<close> block.
\<close>

definition delete_catch :: "js_error \<Rightarrow> server \<Rightarrow> server" where
  "delete_catch error s =
     (let s = fx (WriteHead 500 []) s;
          s = fx (End None) s;
          s = handleError error s
      in SendUpdate s)"

definition handleDeleteRequest_cb ::
  "config \<Rightarrow> (string \<Rightarrow> string) \<Rightarrow> (string \<Rightarrow> js_error + stats) \<Rightarrow> (effect \<Rightarrow> js_error option)
     \<Rightarrow> string \<Rightarrow> js_error + string list \<Rightarrow> server \<Rightarrow> server"
where
  "handleDeleteRequest_cb cfg unescape statSync removal url r s =
     (case r of
        Inr files \<Rightarrow>
          (let path = delete_path cfg unescape url;
               s = log (''DEL:  '' @ path) s
           in case statSync path of
                Inl error \<Rightarrow> delete_catch error s
              | Inr st \<Rightarrow>
                  (case (if isFile st then removal (Unlink path)
                         else if isDirectory st then removal (Rmdir path)
                         else None) of
                     Some error \<Rightarrow> delete_catch error s
                   | None \<Rightarrow>
                       (let s = (if isFile st then fx (Unlink path) s
                                 else if isDirectory st then fx (Rmdir path) s
                                 else s);
                            s = fx (WriteHead 200 [(''Content-Type'', ''text/html'')]) s
                        in fx (End None) s)))
      | Inl err \<Rightarrow>
          (let s = fx (WriteHead 500 []) s;
               s = fx (End None) s;
               s = handleError err s
           in SendUpdate s))"

text \<open>\<^verbatim>\<open>handleUploadRequest\<close> answers at once; the listeners of the form run later.\<close>

definition handleUploadRequest :: "string \<Rightarrow> server \<Rightarrow> server" where
  "handleUploadRequest url s =
     (if url = ''/upload''
      then fx (End None) (fx (WriteHead 200 [(''Content-Type'', ''text/html'')]) s)
      else s)"

definition upload_fileBegin :: "string \<Rightarrow> string \<Rightarrow> server \<Rightarrow> server" where
  "upload_fileBegin socket file_name s = log (''RECV: '' @ socket @ [CHR 0x09, CHR 0x09] @ file_name) s"

definition upload_end :: "server \<Rightarrow> server" where
  "upload_end s = SendUpdate s"

definition upload_error :: "js_error \<Rightarrow> server \<Rightarrow> server" where
  "upload_error err s = SendUpdate (handleError err s)"

subsection \<open>Set up the directory for files and start the server\<close>

text \<open>
  The listeners of the HTTP server. Only \<^verbatim>\<open>"listening"\<close> starts the watcher, the first
  reading of the directory and the socket listener.
\<close>

definition server_on_listening :: "config \<Rightarrow> string \<Rightarrow> nat \<Rightarrow> server \<Rightarrow> server" where
  "server_on_listening cfg address now s =
     (let s = log (''Listening on '' @ address @ '':'' @ show_nat (port cfg)) s;
          s = fx IoListen s;
          s = createWatcher cfg s;
          s = prepareFileList cfg now None s
      in setupSockets s)"

definition server_on_error :: "config \<Rightarrow> js_error \<Rightarrow> server \<Rightarrow> server" where
  "server_on_error cfg err s =
     (if code err = ''EADDRINUSE''
      then log (''Failed to bind to config.port '' @ show_nat (port cfg) @ ''.'') s
      else handleError err s)"

text \<open>What \<^verbatim>\<open>server.listen(config.port)\<close> comes to: the port is bound, at an address, and
  \<^verbatim>\<open>"listening"\<close> is emitted, or it is not bound and \<^verbatim>\<open>"error"\<close> is emitted.\<close>

datatype listen_result = Bound string | ListenFailed js_error

text \<open>
  The callback of \<^verbatim>\<open>fs.mkdir(config.filesDir, ...)\<close> and the server event that follows.
  \<open>ssl_err\<close> is the exception of reading the key or the certificate, if any. The
  \<^verbatim>\<open>catch\<close> block for it begins with a call of \<^verbatim>\<open>logIt\<close>, which is defined nowhere: the
  ReferenceError leaves the callback before the server is created, and reaches the listener
  for uncaught exceptions.
\<close>

definition startup ::
  "config \<Rightarrow> js_error option \<Rightarrow> js_error option \<Rightarrow> listen_result \<Rightarrow> nat \<Rightarrow> server \<Rightarrow> server"
where
  "startup cfg mkdir_err ssl_err lr now s =
     (if (case mkdir_err of None \<Rightarrow> True | Some err \<Rightarrow> code err = ''EEXIST'')
      then
        (case (if \<not> useSSL cfg then None else ssl_err) of
           Some error \<Rightarrow> uncaughtException (ReferenceError ''logIt is not defined'') s
         | None \<Rightarrow>
             (let s = fx (Listen (port cfg)) s
              in case lr of
                   Bound address \<Rightarrow> server_on_listening cfg address now (s\<lparr>listening := True\<rparr>)
                 | ListenFailed err \<Rightarrow> server_on_error cfg err s))
      else (case mkdir_err of None \<Rightarrow> s | Some err \<Rightarrow> handleError err s))"

text \<open>
  Node ends a process by itself once nothing is left that could produce an event: no bound
  listening socket, no persistent watcher, no connected socket, no timer and no outstanding
  request.
\<close>

definition is_Watch :: "effect \<Rightarrow> bool" where
  "is_Watch e = (case e of Watch d \<Rightarrow> True | _ \<Rightarrow> False)"

definition is_Log :: "effect \<Rightarrow> bool" where
  "is_Log e = (case e of Log m \<Rightarrow> True | _ \<Rightarrow> False)"

definition keeps_running :: "server \<Rightarrow> bool" where
  "keeps_running s =
     (listening s \<or> list_ex is_Watch (trace s) \<or> sockets s \<noteq> [] \<or> timers s \<noteq> [] \<or> pending s \<noteq> [])"

subsection \<open>Paths\<close>

text \<open>
  Where a path leads, read off its text: the components between slashes, with empty
  components and \<open>.\<close> dropped and \<open>..\<close> removing the component before it; above the root
  of an absolute path there is nothing, above the start of a relative path \<open>..\<close> stays.
  Symbolic links are not followed. A path lies inside a directory when it leads to the
  directory or below it.
\<close>

fun split_path :: "string \<Rightarrow> string list" where
  "split_path [] = [[]]"
| "split_path (c # cs) =
     (if c = CHR ''/'' then [] # split_path cs
      else case split_path cs of [] \<Rightarrow> [[c]] | w # ws \<Rightarrow> (c # w) # ws)"

fun resolve :: "bool \<Rightarrow> string list \<Rightarrow> string list \<Rightarrow> string list" where
  "resolve absolute st [] = st"
| "resolve absolute st (w # ws) =
     (if w = [] \<or> w = ''.'' then resolve absolute st ws
      else if w = ''..''
        then resolve absolute
               (if st = [] then (if absolute then [] else [w])
                else if last st = ''..'' then st @ [w]
                else butlast st) ws
      else resolve absolute (st @ [w]) ws)"

definition is_absolute :: "string \<Rightarrow> bool" where
  "is_absolute p = (take 1 p = ''/'')"

definition normalize :: "string \<Rightarrow> string list" where
  "normalize p = resolve (is_absolute p) [] (split_path p)"

definition inside :: "string \<Rightarrow> string \<Rightarrow> bool" where
  "inside d p =
     (let n = normalize d; q = normalize p
      in take (length n) q = n \<and> take 1 (drop (length n) q) \<noteq> [''..''])"

definition is_root :: "string \<Rightarrow> bool" where
  "is_root d = (is_absolute d \<and> normalize d = [])"

subsection \<open>Reachable states\<close>

text \<open>One event of the event loop: the handler that runs leads from a state to the next.\<close>

inductive step :: "config \<Rightarrow> server \<Rightarrow> server \<Rightarrow> bool" for cfg :: config where
  watch: "step cfg s (on_watch cfg now event s)"
| readdir: "step cfg s (readdir_done_at cfg statSync n r s)"
| connection: "step cfg s (on_connection c s)"
| disconnect: "step cfg s (on_disconnect c s)"
| request_update: "step cfg s (on_REQUEST_UPDATE c s)"
| create_folder: "step cfg s (on_CREATE_FOLDER cfg c nm s)"
| mkdir_done: "step cfg s (mkdir_cb err s)"
| file_request: "step cfg s (handleFileRequest cfg unescape url s)"
| file_stat: "step cfg s (run_handler (handleFileRequest_cb exponent_text socket path mimeType st s))"
| delete_request: "step cfg s (handleDeleteRequest cfg s)"
| delete_readdir: "step cfg s (handleDeleteRequest_cb cfg unescape statSync removal url r s)"
| upload_request: "step cfg s (handleUploadRequest url s)"
| upload_begin: "step cfg s (upload_fileBegin socket file_name s)"
| upload_done: "step cfg s (upload_end s)"
| upload_failed: "step cfg s (upload_error err s)"

text \<open>The states the server can be in: the one after startup, and those that events lead
  to.\<close>

inductive reachable :: "config \<Rightarrow> server \<Rightarrow> bool" for cfg :: config where
  boot: "reachable cfg (startup cfg mkdir_err ssl_err lr now init)"
| event: "reachable cfg s \<Longrightarrow> step cfg s s' \<Longrightarrow> reachable cfg s'"

subsection \<open>Notions used in the statements\<close>

text \<open>The log lines of \<^verbatim>\<open>handleError(err)\<close>, and the deliveries of one \<^verbatim>\<open>SendUpdate()\<close>:
  one per connected socket, in the order of connection.\<close>

definition error_lines :: "js_error \<Rightarrow> effect list" where
  "error_lines err = map Log (filter (\<lambda>m. m \<noteq> []) [message err, stack err])"

definition pushes :: "server \<Rightarrow> effect list" where
  "pushes s = map (\<lambda>c. Push c ''UPDATE_FILES'' (stringify (fileList_json (fileList s)))) (sockets s)"

text \<open>The number of pushes to the socket \<open>k\<close> in a trace.\<close>

definition is_push_to :: "nat \<Rightarrow> effect \<Rightarrow> bool" where
  "is_push_to k e = (case e of Push c ev p \<Rightarrow> c = k | _ \<Rightarrow> False)"

definition pushes_to :: "nat \<Rightarrow> effect list \<Rightarrow> nat" where
  "pushes_to k es = length (filter (is_push_to k) es)"

text \<open>A burst of calls of \<^verbatim>\<open>prepareFileList\<close>, at the given times.\<close>

fun burst :: "config \<Rightarrow> callback option \<Rightarrow> nat list \<Rightarrow> server \<Rightarrow> server" where
  "burst cfg cb [] s = s"
| "burst cfg cb (t # ts) s = burst cfg cb ts (prepareFileList cfg t cb s)"

text \<open>
  The payload as the specification words it: a JSON array with one object per entry. And
  the shape the program gives it: an object with one member per stored entry, the key being
  the listing index; \<open>stored_ok\<close> says that the stored kinds are \<open>f\<close> or \<open>d\<close> and that the
  indices ascend.
\<close>

definition array_payload :: "entry list \<Rightarrow> string" where
  "array_payload es = stringify (JArray (map entry_json es))"

definition member :: "nat \<times> entry \<Rightarrow> string \<times> json" where
  "member ie =
     (show_nat (fst ie),
      JObject [(''name'', JString (name (snd ie))), (''type'', JString (type (snd ie))),
               (''size'', JNumber (size_entry (snd ie)))])"

definition stored_ok :: "(nat \<times> entry) list \<Rightarrow> bool" where
  "stored_ok fl =
     (list_all (\<lambda>ie. type (snd ie) = ''f'' \<or> type (snd ie) = ''d'') fl \<and> sorted_wrt (<) (map fst fl))"

text \<open>
  An effect is in order for a state when, if it is a push, it carries the event name
  \<open>UPDATE_FILES\<close>, goes to a socket connected in that state and has the text of the file
  list of that state as its payload. And the log lines of the loop of the directory
  callback: those of the names whose metadata lookup fails.
\<close>

definition sent_by :: "server \<Rightarrow> effect \<Rightarrow> bool" where
  "sent_by s e =
     (case e of
        Push c ev p \<Rightarrow>
          ev = ''UPDATE_FILES'' \<and> c \<in> set (sockets s) \<and> p = stringify (fileList_json (fileList s))
      | _ \<Rightarrow> True)"

definition fill_logs :: "config \<Rightarrow> (string \<Rightarrow> js_error + stats) \<Rightarrow> string list \<Rightarrow> effect list" where
  "fill_logs cfg statSync files =
     concat (map (\<lambda>nm. case statSync (filesDir cfg @ nm) of
                          Inl error \<Rightarrow> error_lines error
                        | Inr st \<Rightarrow> []) files)"

subsection \<open>A configuration and a directory for the examples\<close>

definition cfg0 :: config where
  "cfg0 = \<lparr>filesDir = ''./files/'', port = 8080, useSSL = False, httpsKey = [], httpsCert = []\<rparr>"

definition ENOENT :: js_error where
  "ENOENT = \<lparr>code = ''ENOENT'', message = ''ENOENT, no such file or directory'', stack = []\<rparr>"

definition EADDRINUSE :: js_error where
  "EADDRINUSE = \<lparr>code = ''EADDRINUSE'', message = ''listen EADDRINUSE'', stack = []\<rparr>"

text \<open>A directory with the file \<open>a.txt\<close> of 10 bytes, the directory \<open>sub\<close> and the named pipe
  \<open>pipe\<close>, which is neither a file nor a directory; and the same directory emptied.\<close>

definition fs0 :: "string \<Rightarrow> js_error + stats" where
  "fs0 p =
     (if p = ''./files/a.txt'' then Inr \<lparr>isFile = True, isDirectory = False, size_stats = 10\<rparr>
      else if p = ''./files/sub'' then Inr \<lparr>isFile = False, isDirectory = True, size_stats = 0\<rparr>
      else if p = ''./files/pipe'' then Inr \<lparr>isFile = False, isDirectory = False, size_stats = 0\<rparr>
      else Inl ENOENT)"

definition fs_empty :: "string \<Rightarrow> js_error + stats" where
  "fs_empty p = Inl ENOENT"

definition a_txt :: entry where
  "a_txt = \<lparr>name = ''a.txt'', type = ''f'', size_entry = 10\<rparr>"

text \<open>The server started on \<open>cfg0\<close>, one client connected, the first reading of the
  directory, which lists \<open>a.txt\<close>, completed.\<close>

definition served :: server where
  "served =
     readdir_done cfg0 fs0 (Inr [''a.txt''])
       (on_connection 1 (startup cfg0 None None (Bound ''0.0.0.0'') 0 init))"

text \<open>The same directory after \<open>a.txt\<close> has been removed.\<close>

definition fs1 :: "string \<Rightarrow> js_error + stats" where
  "fs1 p = (if p = ''./files/a.txt'' then Inl ENOENT else fs0 p)"

definition sub_dir :: entry where
  "sub_dir = \<lparr>name = ''sub'', type = ''d'', size_entry = 0\<rparr>"

subsection \<open>Auxiliary notions\<close>

text \<open>A later trace extends an earlier one; what has been appended in between.\<close>

definition extends :: "server \<Rightarrow> server \<Rightarrow> bool" where
  "extends s s' = (take (length (trace s)) (trace s') = trace s)"

definition appended :: "server \<Rightarrow> server \<Rightarrow> effect list" where
  "appended s s' = drop (length (trace s)) (trace s')"

text \<open>The effect of one \<open>..\<close> on the components resolved so far.\<close>

definition pop :: "bool \<Rightarrow> string list \<Rightarrow> string list" where
  "pop a st =
     (if st = [] then (if a then [] else [''..''])
      else if last st = ''..'' then st @ [''..'']
      else butlast st)"

text \<open>
  The value of the variable \<^verbatim>\<open>type\<close> after one pass of the loop and after the passes for
  a list of names, and whether the metadata lookup of a name succeeds and reports a plain
  file or a directory.
\<close>

definition next_type ::
  "config \<Rightarrow> (string \<Rightarrow> js_error + stats) \<Rightarrow> string \<Rightarrow> string option \<Rightarrow> string option"
where
  "next_type cfg statSync nm ty =
     (case statSync (filesDir cfg @ nm) of
        Inl error \<Rightarrow> ty
      | Inr st \<Rightarrow> if isDirectory st then Some ''d'' else if isFile st then Some ''f'' else ty)"

fun carried_type ::
  "config \<Rightarrow> (string \<Rightarrow> js_error + stats) \<Rightarrow> string list \<Rightarrow> string option \<Rightarrow> string option"
where
  "carried_type cfg statSync [] ty = ty"
| "carried_type cfg statSync (nm # rest) ty =
     carried_type cfg statSync rest (next_type cfg statSync nm ty)"

definition reports_kind :: "config \<Rightarrow> (string \<Rightarrow> js_error + stats) \<Rightarrow> string \<Rightarrow> bool" where
  "reports_kind cfg statSync nm =
     (case statSync (filesDir cfg @ nm) of Inl error \<Rightarrow> False | Inr st \<Rightarrow> isFile st \<or> isDirectory st)"

text \<open>
  The entries the specification describes for a listing, from index \<open>i\<close> on: each name
  whose metadata lookup succeeds and reports a plain file or a directory, at its index in
  the listing, with that kind and the reported size. A listing is regular when none of its
  names is of another kind.
\<close>

fun listing_entries ::
  "config \<Rightarrow> (string \<Rightarrow> js_error + stats) \<Rightarrow> string list \<Rightarrow> nat \<Rightarrow> (nat \<times> entry) list"
where
  "listing_entries cfg statSync [] i = []"
| "listing_entries cfg statSync (nm # rest) i =
     (case statSync (filesDir cfg @ nm) of
        Inl error \<Rightarrow> []
      | Inr st \<Rightarrow>
          if isDirectory st then [(i, \<lparr>name = nm, type = ''d'', size_entry = size_stats st\<rparr>)]
          else if isFile st then [(i, \<lparr>name = nm, type = ''f'', size_entry = size_stats st\<rparr>)]
          else [])
     @ listing_entries cfg statSync rest (Suc i)"

definition file_or_directory :: "config \<Rightarrow> (string \<Rightarrow> js_error + stats) \<Rightarrow> string \<Rightarrow> bool" where
  "file_or_directory cfg statSync nm =
     (case statSync (filesDir cfg @ nm) of Inl error \<Rightarrow> True | Inr st \<Rightarrow> isFile st \<or> isDirectory st)"

section \<open>Properties\<close>

subsection \<open>Decimal numerals\<close>

lemma is_digit_digit_char: "is_digit (digit_char d)"
proof -
  have "d mod 10 \<in> {0, 1, 2, 3, 4, 5, 6, 7, 8, 9}" by simp presburger
  then show ?thesis
    unfolding digit_char_def is_digit_def by auto
qed

lemma show_nat_digits: "list_all is_digit (show_nat n)"
proof (induction n rule: show_nat.induct)
  case (1 n)
  then show ?case
    by (subst show_nat.simps) (simp add: is_digit_digit_char)
qed

lemma show_nat_nonempty: "show_nat n \<noteq> []"
  by (subst show_nat.simps) simp

lemma show_nat_length_ge3: "100 \<le> n \<Longrightarrow> 3 \<le> length (show_nat n)"
proof -
  assume h: "100 \<le> n"
  have h': "\<not> n div 10 < 10"
    using h by arith
  have a: "show_nat n = show_nat (n div 10) @ [digit_char (n mod 10)]"
    using h by (subst show_nat.simps) simp
  have b: "show_nat (n div 10) = show_nat (n div 10 div 10) @ [digit_char (n div 10 mod 10)]"
    using h' by (subst show_nat.simps) simp
  show ?thesis
    using show_nat_nonempty [of "n div 10 div 10"]
    by (simp add: a b Suc_le_eq)
qed

lemma toFixed2_below:
  assumes "num < 10 ^ 21 * den"
  shows "toFixed2 ex num den =
     (let n = nearest_hundredth num den;
          m = show_nat n;
          m = (if length m \<le> 2 then replicate (3 - length m) (CHR ''0'') @ m else m);
          k = length m
      in take (k - 2) m @ ''.'' @ drop (k - 2) m)"
  using assms by (simp add: toFixed2_def)

lemma toFixed2_two_decimals:
  assumes below: "num < 10 ^ 21 * den"
  shows "two_decimals (toFixed2 ex num den)"
proof -
  define n where "n = nearest_hundredth num den"
  define m0 where "m0 = show_nat n"
  define m where "m = (if length m0 \<le> 2 then replicate (3 - length m0) (CHR ''0'') @ m0 else m0)"
  have d0: "list_all is_digit m0"
    unfolding m0_def by (rule show_nat_digits)
  have z: "is_digit (CHR ''0'')"
    by (simp add: is_digit_def)
  have dm: "list_all is_digit m"
    unfolding m_def using d0 z by (simp add: list_all_iff)
  have lm: "3 \<le> length m"
    unfolding m_def by simp
  have tf: "toFixed2 ex num den = take (length m - 2) m @ ''.'' @ drop (length m - 2) m"
    unfolding toFixed2_below [OF below] Let_def m_def m0_def n_def by simp
  have len: "length (toFixed2 ex num den) = length m + 1"
    unfolding tf using lm by simp
  have pt: "toFixed2 ex num den ! (length m - 2) = CHR ''.''"
    unfolding tf using lm by (simp add: nth_append)
  have tk: "take (length m - 2) (toFixed2 ex num den) = take (length m - 2) m"
    unfolding tf using lm by simp
  have dr: "drop (length m - 1) (toFixed2 ex num den) = drop (length m - 2) m"
  proof -
    have "length m - 1 = length (take (length m - 2) m @ ''.'')"
      using lm by simp
    then show ?thesis
      unfolding tf by (metis append.assoc append_eq_conv_conj)
  qed
  have d1: "list_all is_digit (take (length m - 2) m)"
    using dm by (metis append_take_drop_id list_all_append)
  have d2: "list_all is_digit (drop (length m - 2) m)"
    using dm by (metis append_take_drop_id list_all_append)
  show ?thesis
    unfolding two_decimals_def Let_def len
    using lm pt tk dr d1 d2 by simp
qed

lemma nearest_hundredth_close:
  assumes "0 < den"
  shows "2 * (100 * num) \<le> 2 * (nearest_hundredth num den * den) + den"
    and "2 * (nearest_hundredth num den * den) \<le> 2 * (100 * num) + den"
proof -
  define a where "a = 200 * num + den"
  define b where "b = 2 * den"
  have b0: "0 < b" using assms by (simp add: b_def)
  have e: "a = (a div b) * b + a mod b" by simp
  have r: "a mod b < b" using b0 by simp
  have n: "nearest_hundredth num den = a div b"
    by (simp add: nearest_hundredth_def a_def b_def)
  have t: "2 * (nearest_hundredth num den * den) = (a div b) * b"
    by (simp add: n b_def)
  show "2 * (100 * num) \<le> 2 * (nearest_hundredth num den * den) + den"
    unfolding t using e r unfolding a_def b_def by linarith
  show "2 * (nearest_hundredth num den * den) \<le> 2 * (100 * num) + den"
    unfolding t using e unfolding a_def by linarith
qed

lemma toFixed2_digits:
  assumes below: "num < 10 ^ 21 * den"
  shows "toFixed2 ex num den =
     (let n = nearest_hundredth num den
      in show_nat (n div 100) @ ''.'' @ [digit_char (n div 10 mod 10), digit_char (n mod 10)])"
proof -
  define n where "n = nearest_hundredth num den"
  consider (one) "n < 10" | (two) "10 \<le> n" "n < 100" | (more) "100 \<le> n"
    by linarith
  then have "toFixed2 ex num den =
      show_nat (n div 100) @ ''.'' @ [digit_char (n div 10 mod 10), digit_char (n mod 10)]"
  proof cases
    case one
    have a: "show_nat n = [digit_char n]"
      using one by (subst show_nat.simps) simp
    have b: "show_nat (n div 100) = ''0''"
      using one by (subst show_nat.simps) (simp add: digit_char_def)
    have c: "digit_char (n div 10 mod 10) = CHR ''0''" "n mod 10 = n"
      using one by (simp_all add: digit_char_def)
    show ?thesis
      unfolding toFixed2_below [OF below] Let_def n_def [symmetric] a b c
      by (simp add: numeral_3_eq_3)
  next
    case two
    have q: "n div 10 < 10" "n div 10 mod 10 = n div 10" "n div 100 = 0"
      using two by simp_all
    have a: "show_nat n = [digit_char (n div 10), digit_char (n mod 10)]"
      using two q by (subst show_nat.simps, simp, subst show_nat.simps, simp)
    have b: "show_nat 0 = ''0''"
      by (subst show_nat.simps) (simp add: digit_char_def)
    show ?thesis
      unfolding toFixed2_below [OF below] Let_def n_def [symmetric] a q b
      by simp
  next
    case more
    have h: "\<not> n < 10" "\<not> n div 10 < 10"
      using more by simp_all
    have q: "n div 10 div 10 = n div 100"
      by (simp add: div_mult2_eq [symmetric])
    have a: "show_nat n = show_nat (n div 100) @ [digit_char (n div 10 mod 10), digit_char (n mod 10)]"
      using h by (subst show_nat.simps, simp, subst show_nat.simps, simp add: q)
    have l: "\<not> length (show_nat n) \<le> 2"
      using show_nat_length_ge3 [OF more] by simp
    have k: "length (show_nat n) - 2 = length (show_nat (n div 100))"
      by (simp add: a)
    show ?thesis
      unfolding toFixed2_below [OF below] Let_def n_def [symmetric]
      using l by (simp add: k) (simp add: a)
  qed
  then show ?thesis
    by (simp add: Let_def n_def)
qed

subsection \<open>The size formatter\<close>

lemma unit_exp_below:
  assumes "1024 \<le> bytes" and "bytes < 10 ^ 21 * 1024 ^ 4"
  shows "bytes < 10 ^ 21 * 1024 ^ unit_exp bytes"
  using assms by (simp add: unit_exp_def)

text \<open>
  C8. For every byte count, \<open>convertToSI\<close> returns the decimal count followed by \<open>B\<close>
  when the count is below 1024; otherwise it divides the count by the largest of \<open>1024\<close>,
  \<open>1024^2\<close>, \<open>1024^3\<close>, \<open>1024^4\<close> that it reaches and appends a space and \<open>KiB\<close>,
  \<open>MiB\<close>, \<open>GiB\<close> or \<open>TiB\<close>. For every count below \<open>10^21 * 1024^4\<close>, which no size
  of a file comes near, the quotient is rendered as digits, a point and exactly two digits,
  and the number of hundredths so written is within half a hundredth of the exact quotient.
  That bound is the one the code has: from it on, \<^verbatim>\<open>toFixed\<close> hands the quotient to the
  language's conversion of a Number to a string.
\<close>

theorem convertToSI_units:
  "(bytes < 1024 \<longrightarrow> convertToSI exponent_text bytes = show_nat bytes @ '' B'') \<and>
   (1024 \<le> bytes \<longrightarrow>
      (let d = 1024 ^ unit_exp bytes; n = nearest_hundredth bytes d
       in convertToSI exponent_text bytes =
            toFixed2 exponent_text bytes d @ '' '' @ unit_name (unit_exp bytes)
          \<and> 1 \<le> unit_exp bytes \<and> unit_exp bytes \<le> 4
          \<and> d \<le> bytes \<and> (unit_exp bytes < 4 \<longrightarrow> bytes < 1024 * d)
          \<and> (bytes < 10 ^ 21 * 1024 ^ 4 \<longrightarrow>
                two_decimals (toFixed2 exponent_text bytes d)
                \<and> toFixed2 exponent_text bytes d =
                    show_nat (n div 100) @ ''.'' @ [digit_char (n div 10 mod 10), digit_char (n mod 10)]
                \<and> 2 * (100 * bytes) \<le> 2 * (n * d) + d
                \<and> 2 * (n * d) \<le> 2 * (100 * bytes) + d)
          \<and> (10 ^ 21 * 1024 ^ 4 \<le> bytes \<longrightarrow>
                unit_exp bytes = 4 \<and> toFixed2 exponent_text bytes d = exponent_text bytes d)))"
proof -
  have small: "bytes < 1024 \<longrightarrow> convertToSI exponent_text bytes = show_nat bytes @ '' B''"
    by (simp add: convertToSI_def kib_def)
  have large: "1024 \<le> bytes \<longrightarrow>
      (let d = 1024 ^ unit_exp bytes; n = nearest_hundredth bytes d
       in convertToSI exponent_text bytes =
            toFixed2 exponent_text bytes d @ '' '' @ unit_name (unit_exp bytes)
          \<and> 1 \<le> unit_exp bytes \<and> unit_exp bytes \<le> 4
          \<and> d \<le> bytes \<and> (unit_exp bytes < 4 \<longrightarrow> bytes < 1024 * d)
          \<and> (bytes < 10 ^ 21 * 1024 ^ 4 \<longrightarrow>
                two_decimals (toFixed2 exponent_text bytes d)
                \<and> toFixed2 exponent_text bytes d =
                    show_nat (n div 100) @ ''.'' @ [digit_char (n div 10 mod 10), digit_char (n mod 10)]
                \<and> 2 * (100 * bytes) \<le> 2 * (n * d) + d
                \<and> 2 * (n * d) \<le> 2 * (100 * bytes) + d)
          \<and> (10 ^ 21 * 1024 ^ 4 \<le> bytes \<longrightarrow>
                unit_exp bytes = 4 \<and> toFixed2 exponent_text bytes d = exponent_text bytes d))"
  proof
    assume big: "1024 \<le> bytes"
    define d :: nat where "d = 1024 ^ unit_exp bytes"
    have dpos: "0 < d"
      by (simp add: d_def)
    have conv: "convertToSI exponent_text bytes =
        toFixed2 exponent_text bytes d @ '' '' @ unit_name (unit_exp bytes)"
      using big
      by (simp add: convertToSI_def kib_def mib_def gib_def tib_def d_def unit_exp_def unit_name_def)
    have rng: "1 \<le> unit_exp bytes \<and> unit_exp bytes \<le> 4"
      using big by (simp add: unit_exp_def)
    have lo: "d \<le> bytes"
      using big by (simp add: d_def unit_exp_def)
    have hi: "unit_exp bytes < 4 \<longrightarrow> bytes < 1024 * d"
      using big by (simp add: d_def unit_exp_def)
    have fixed: "two_decimals (toFixed2 exponent_text bytes d)
        \<and> toFixed2 exponent_text bytes d =
            show_nat (nearest_hundredth bytes d div 100) @ ''.'' @
              [digit_char (nearest_hundredth bytes d div 10 mod 10),
               digit_char (nearest_hundredth bytes d mod 10)]
        \<and> 2 * (100 * bytes) \<le> 2 * (nearest_hundredth bytes d * d) + d
        \<and> 2 * (nearest_hundredth bytes d * d) \<le> 2 * (100 * bytes) + d"
      if bound: "bytes < 10 ^ 21 * 1024 ^ 4"
    proof -
      have below: "bytes < 10 ^ 21 * d"
        unfolding d_def by (rule unit_exp_below [OF big bound])
      have dig: "toFixed2 exponent_text bytes d =
          show_nat (nearest_hundredth bytes d div 100) @ ''.'' @
            [digit_char (nearest_hundredth bytes d div 10 mod 10),
             digit_char (nearest_hundredth bytes d mod 10)]"
        using toFixed2_digits [OF below, of exponent_text] by (simp add: Let_def)
      show ?thesis
        using toFixed2_two_decimals [OF below, of exponent_text] dig
          nearest_hundredth_close [OF dpos, of bytes]
        by blast
    qed
    have expo: "unit_exp bytes = 4 \<and> toFixed2 exponent_text bytes d = exponent_text bytes d"
      if beyond: "10 ^ 21 * 1024 ^ 4 \<le> bytes"
    proof -
      have u: "unit_exp bytes = 4"
        using beyond by (simp add: unit_exp_def)
      have "10 ^ 21 * d \<le> bytes"
        using beyond by (simp add: d_def u)
      then show ?thesis
        using u by (simp add: toFixed2_def)
    qed
    show "let d = 1024 ^ unit_exp bytes; n = nearest_hundredth bytes d
       in convertToSI exponent_text bytes =
            toFixed2 exponent_text bytes d @ '' '' @ unit_name (unit_exp bytes)
          \<and> 1 \<le> unit_exp bytes \<and> unit_exp bytes \<le> 4
          \<and> d \<le> bytes \<and> (unit_exp bytes < 4 \<longrightarrow> bytes < 1024 * d)
          \<and> (bytes < 10 ^ 21 * 1024 ^ 4 \<longrightarrow>
                two_decimals (toFixed2 exponent_text bytes d)
                \<and> toFixed2 exponent_text bytes d =
                    show_nat (n div 100) @ ''.'' @ [digit_char (n div 10 mod 10), digit_char (n mod 10)]
                \<and> 2 * (100 * bytes) \<le> 2 * (n * d) + d
                \<and> 2 * (n * d) \<le> 2 * (100 * bytes) + d)
          \<and> (10 ^ 21 * 1024 ^ 4 \<le> bytes \<longrightarrow>
                unit_exp bytes = 4 \<and> toFixed2 exponent_text bytes d = exponent_text bytes d)"
      unfolding Let_def d_def [symmetric]
      using conv rng lo hi fixed expo by blast
  qed
  show ?thesis
    using small large by blast
qed

theorem convertToSI_units_witness:
  "(1024::nat) \<le> 2621440 \<and> (2621440::nat) < 10 ^ 21 * 1024 ^ 4 \<and> unit_exp 2621440 < 4
   \<and> convertToSI (\<lambda>num den. ''2e+21'') 2621440 = ''2.50 MiB''
   \<and> convertToSI (\<lambda>num den. ''2e+21'') 1000 = ''1000 B''
   \<and> (1125899906842624000::nat) < 10 ^ 21 * 1024 ^ 4 \<and> unit_exp 1125899906842624000 = 4
   \<and> convertToSI (\<lambda>num den. ''2e+21'') 1125899906842624000 = ''1024000.00 TiB''
   \<and> (10 ^ 21 * 1024 ^ 4 :: nat) \<le> 2 * (10 ^ 21 * 1024 ^ 4)
   \<and> convertToSI (\<lambda>num den. ''2e+21'') (2 * (10 ^ 21 * 1024 ^ 4)) =
       ''2e+21 TiB''"
proof -
  have u: "unit_exp 2621440 = 2"
    by (simp add: unit_exp_def)
  have u3: "unit_exp 1125899906842624000 = 4"
    by (simp add: unit_exp_def)
  have u4: "unit_exp 2199023255552000000000000000000000 = 4"
    by (simp add: unit_exp_def)
  have n: "nearest_hundredth 2621440 1048576 = 250"
    by (simp add: nearest_hundredth_def)
  have n3: "nearest_hundredth 1125899906842624000 1099511627776 = 102400000"
    by (simp add: nearest_hundredth_def)
  have s2: "show_nat 2 = ''2''"
    by (subst show_nat.simps) (simp add: digit_char_def)
  have s1000: "show_nat 1000 = ''1000''"
    by code_simp
  have s3: "show_nat 1024000 = ''1024000''"
    by code_simp
  have a: "convertToSI (\<lambda>num den. ''2e+21'') 2621440 = ''2.50 MiB''"
    using convertToSI_units [of 2621440 "(\<lambda>num den. ''2e+21'')"]
    by (simp add: u n s2 Let_def unit_name_def digit_char_def)
  have b: "convertToSI (\<lambda>num den. ''2e+21'') 1000 = ''1000 B''"
    using convertToSI_units [of 1000 "(\<lambda>num den. ''2e+21'')"]
    by (simp add: s1000)
  have c: "convertToSI (\<lambda>num den. ''2e+21'') 1125899906842624000 = ''1024000.00 TiB''"
    using convertToSI_units [of 1125899906842624000 "(\<lambda>num den. ''2e+21'')"]
    by (simp add: u3 n3 s3 Let_def unit_name_def digit_char_def)
  have d: "convertToSI (\<lambda>num den. ''2e+21'') (2 * (10 ^ 21 * 1024 ^ 4)) =
       ''2e+21 TiB''"
    using convertToSI_units [of "2 * (10 ^ 21 * 1024 ^ 4)" "(\<lambda>num den. ''2e+21'')"]
    by (simp add: u4 Let_def unit_name_def)
  show ?thesis
    using a b c d u u3 by simp
qed

subsection \<open>The state after each helper\<close>

lemma fx_simps [simp]:
  "fileList (fx e s) = fileList s" "last_date (fx e s) = last_date s" "sockets (fx e s) = sockets s"
  "timers (fx e s) = timers s" "pending (fx e s) = pending s" "listening (fx e s) = listening s"
  "trace (fx e s) = trace s @ [e]"
  by (simp_all add: fx_def)

lemma log_simps [simp]:
  "fileList (log m s) = fileList s" "last_date (log m s) = last_date s" "sockets (log m s) = sockets s"
  "timers (log m s) = timers s" "pending (log m s) = pending s" "listening (log m s) = listening s"
  "trace (log m s) = trace s @ [Log m]"
  by (simp_all add: log_def)

lemma handleError_simps [simp]:
  "fileList (handleError err s) = fileList s" "last_date (handleError err s) = last_date s"
  "sockets (handleError err s) = sockets s" "timers (handleError err s) = timers s"
  "pending (handleError err s) = pending s" "listening (handleError err s) = listening s"
  "trace (handleError err s) = trace s @ error_lines err"
  by (simp_all add: handleError_def error_lines_def Let_def)

lemma SendUpdate_simps [simp]:
  "fileList (SendUpdate s) = fileList s" "last_date (SendUpdate s) = last_date s"
  "sockets (SendUpdate s) = sockets s" "timers (SendUpdate s) = timers s"
  "pending (SendUpdate s) = pending s" "listening (SendUpdate s) = listening s"
  "trace (SendUpdate s) = trace s @ pushes s"
  by (simp_all add: SendUpdate_def emit_def pushes_def)

lemma pushes_simps [simp]:
  "pushes (fx e s) = pushes s" "pushes (log m s) = pushes s" "pushes (handleError err s) = pushes s"
  by (simp_all add: pushes_def)

lemma run_simps [simp]:
  "fileList (run cfg now cb s) = []" "last_date (run cfg now cb s) = Some now"
  "sockets (run cfg now cb s) = sockets s" "timers (run cfg now cb s) = timers s"
  "pending (run cfg now cb s) = pending s @ [cb]" "listening (run cfg now cb s) = listening s"
  "trace (run cfg now cb s) = trace s @ [Readdir (filesDir cfg)]"
  by (simp_all add: run_def)

lemma prepareFileList_run: "prepareFileList cfg now cb s = run cfg now cb s"
  by (simp add: prepareFileList_def)

lemma show_nat_examples:
  "show_nat 0 = ''0''" "show_nat 10 = ''10''" "show_nat 8080 = ''8080''"
  by code_simp+

lemma served_eq:
  "served =
     \<lparr>fileList = [(0, a_txt)], last_date = Some 0, sockets = [1], timers = [], pending = [],
      listening = True,
      trace = [Listen 8080, Log ''Listening on 0.0.0.0:8080'', IoListen, Watch ''./files/'',
               Readdir ''./files/'', OnConnection]\<rparr>"
  unfolding served_def
  by (simp add: startup_def cfg0_def server_on_listening_def Let_def init_def show_nat_examples
      createWatcher_def prepareFileList_run setupSockets_def on_connection_def readdir_done_def
      run_handler_def readdir_cb_def call_callback_def fs0_def a_txt_def fx_def log_def run_def
      loop_body_def)

lemma readdir_done_at_0: "readdir_done_at cfg statSync 0 r s = readdir_done cfg statSync r s"
  by (cases "pending s") (simp_all add: readdir_done_at_def readdir_done_def)

lemma reachable_served: "reachable cfg0 served"
proof -
  have a: "reachable cfg0 (startup cfg0 None None (Bound ''0.0.0.0'') 0 init)"
    by (rule reachable.boot)
  have b: "reachable cfg0 (on_connection 1 (startup cfg0 None None (Bound ''0.0.0.0'') 0 init))"
    using a step.connection by (rule reachable.event)
  have c: "reachable cfg0
      (readdir_done_at cfg0 fs0 0 (Inr [''a.txt''])
         (on_connection 1 (startup cfg0 None None (Bound ''0.0.0.0'') 0 init)))"
    using b step.readdir by (rule reachable.event)
  show ?thesis
    using c by (simp add: served_def readdir_done_at_0)
qed

subsection \<open>The file list object\<close>

lemma map_of_obj_set: "map_of (obj_set i v fl) = (map_of fl)(i \<mapsto> v)"
  by (induction i v fl rule: obj_set.induct) (auto simp: fun_eq_iff)

lemma set_obj_set: "set (obj_set i v fl) \<subseteq> insert (i, v) (set fl)"
  by (induction i v fl rule: obj_set.induct) auto

lemma in_obj_set: "(k, e) \<in> set (obj_set i v fl) \<Longrightarrow> k = i \<and> e = v \<or> (k, e) \<in> set fl"
  using set_obj_set [of i v fl] by auto

lemma keys_obj_set: "fst ` set (obj_set i v fl) = insert i (fst ` set fl)"
  by (induction i v fl rule: obj_set.induct) auto

lemma sorted_obj_set:
  "sorted_wrt (<) (map fst fl) \<Longrightarrow> sorted_wrt (<) (map fst (obj_set i v fl))"
proof (induction i v fl rule: obj_set.induct)
  case (1 i v)
  then show ?case by simp
next
  case (2 i v j w r)
  have k: "fst ` set (obj_set i v r) = insert i (fst ` set r)"
    by (rule keys_obj_set)
  show ?case
    using 2 k by (auto simp: image_iff)
qed

lemma obj_set_append: "list_all (\<lambda>ie. fst ie < i) fl \<Longrightarrow> obj_set i v fl = fl @ [(i, v)]"
  by (induction i v fl rule: obj_set.induct) auto

subsection \<open>The loop of the directory callback\<close>

lemma loop_body_frame [simp]:
  "last_date (snd (loop_body cfg st nm i ty s)) = last_date s"
  "sockets (snd (loop_body cfg st nm i ty s)) = sockets s"
  "timers (snd (loop_body cfg st nm i ty s)) = timers s"
  "pending (snd (loop_body cfg st nm i ty s)) = pending s"
  "listening (snd (loop_body cfg st nm i ty s)) = listening s"
  by (simp_all add: loop_body_def Let_def split: sum.splits option.splits)

lemma loop_body_fileList:
  "fileList (snd (loop_body cfg st nm i ty s)) = fileList s \<or>
   (\<exists>t n. (t = ''f'' \<or> t = ''d'') \<and>
      fileList (snd (loop_body cfg st nm i ty s)) =
        obj_set i \<lparr>name = nm, type = t, size_entry = n\<rparr> (fileList s))"
  by (auto simp: loop_body_def Let_def split: sum.splits option.splits)

lemma loop_body_trace:
  "trace (snd (loop_body cfg st nm i ty s)) =
     trace s @ (case st (filesDir cfg @ nm) of Inl error \<Rightarrow> error_lines error | Inr x \<Rightarrow> [])"
  by (simp add: loop_body_def Let_def split: sum.splits option.splits)

lemma fill_loop_Cons:
  "fill_loop cfg st (nm # rest) i ty s =
     fill_loop cfg st rest (Suc i) (fst (loop_body cfg st nm i ty s)) (snd (loop_body cfg st nm i ty s))"
  by (simp add: case_prod_beta)

lemma fill_loop_frame [simp]:
  "last_date (fill_loop cfg st files i ty s) = last_date s"
  "sockets (fill_loop cfg st files i ty s) = sockets s"
  "timers (fill_loop cfg st files i ty s) = timers s"
  "pending (fill_loop cfg st files i ty s) = pending s"
  "listening (fill_loop cfg st files i ty s) = listening s"
  by (induction files arbitrary: i ty s; simp add: fill_loop_Cons del: fill_loop.simps(2))+

lemma fill_loop_outside:
  "k < i \<or> i + length files \<le> k \<Longrightarrow>
   map_of (fileList (fill_loop cfg st files i ty s)) k = map_of (fileList s) k"
proof (induction files arbitrary: i ty s)
  case Nil
  then show ?case by simp
next
  case (Cons nm rest)
  have r: "k < Suc i \<or> Suc i + length rest \<le> k" and ne: "k \<noteq> i"
    using Cons.prems by auto
  have b: "map_of (fileList (snd (loop_body cfg st nm i ty s))) k = map_of (fileList s) k"
    using loop_body_fileList [of cfg st nm i ty s] ne
    by (auto simp: map_of_obj_set)
  show ?case
    unfolding fill_loop_Cons using Cons.IH [OF r] b by simp
qed

lemma fill_loop_stored:
  "(k, e) \<in> set (fileList (fill_loop cfg st files i ty s)) \<Longrightarrow>
   (k, e) \<in> set (fileList s) \<or>
   (i \<le> k \<and> k < i + length files \<and> name e = files ! (k - i) \<and> (type e = ''f'' \<or> type e = ''d''))"
proof (induction files arbitrary: i ty s)
  case Nil
  then show ?case by simp
next
  case (Cons nm rest)
  have ih: "(k, e) \<in> set (fileList (snd (loop_body cfg st nm i ty s))) \<or>
     (Suc i \<le> k \<and> k < Suc i + length rest \<and> name e = rest ! (k - Suc i)
      \<and> (type e = ''f'' \<or> type e = ''d''))"
    using Cons.IH Cons.prems unfolding fill_loop_Cons by blast
  have old: "(k, e) \<in> set (fileList (snd (loop_body cfg st nm i ty s))) \<Longrightarrow>
     (k, e) \<in> set (fileList s) \<or> (k = i \<and> name e = nm \<and> (type e = ''f'' \<or> type e = ''d''))"
    using loop_body_fileList [of cfg st nm i ty s]
    by (auto dest!: in_obj_set)
  have nth: "Suc i \<le> k \<Longrightarrow> (nm # rest) ! (k - i) = rest ! (k - Suc i)"
    by (simp add: Suc_diff_le)
  show ?case
    using ih old nth by auto
qed

lemma loop_body_fst: "fst (loop_body cfg st nm i ty s) = next_type cfg st nm ty"
  by (simp add: loop_body_def next_type_def Let_def split: sum.splits option.splits)

lemma next_type_good:
  "ty = None \<or> ty = Some ''f'' \<or> ty = Some ''d'' \<Longrightarrow>
   next_type cfg st nm ty = None \<or> next_type cfg st nm ty = Some ''f''
   \<or> next_type cfg st nm ty = Some ''d''"
  by (auto simp: next_type_def split: sum.splits)

lemma loop_body_at:
  assumes "ty = None \<or> ty = Some ''f'' \<or> ty = Some ''d''"
  shows "map_of (fileList (snd (loop_body cfg st nm i ty s))) =
     (case st (filesDir cfg @ nm) of
        Inl error \<Rightarrow> map_of (fileList s)
      | Inr x \<Rightarrow>
          (case next_type cfg st nm ty of
             None \<Rightarrow> map_of (fileList s)
           | Some t \<Rightarrow> (map_of (fileList s))(i \<mapsto> \<lparr>name = nm, type = t, size_entry = size_stats x\<rparr>)))"
  using assms
  by (auto simp: loop_body_def next_type_def Let_def map_of_obj_set split: sum.splits)

lemma loop_body_other:
  "k \<noteq> i \<Longrightarrow> map_of (fileList (snd (loop_body cfg st nm i ty s))) k = map_of (fileList s) k"
  using loop_body_fileList [of cfg st nm i ty s] by (auto simp: map_of_obj_set)

text \<open>
  What the loop leaves at an index of its listing: the old value where the metadata lookup
  fails or the variable \<^verbatim>\<open>type\<close> is still undefined, and otherwise the entry with the
  listed name, the kind that \<^verbatim>\<open>type\<close> holds and the reported size.
\<close>

lemma fill_loop_at:
  assumes "ty = None \<or> ty = Some ''f'' \<or> ty = Some ''d''" and "i \<le> k" and "k < i + length files"
  shows "map_of (fileList (fill_loop cfg st files i ty s)) k =
     (case st (filesDir cfg @ files ! (k - i)) of
        Inl error \<Rightarrow> map_of (fileList s) k
      | Inr x \<Rightarrow>
          (case next_type cfg st (files ! (k - i)) (carried_type cfg st (take (k - i) files) ty) of
             None \<Rightarrow> map_of (fileList s) k
           | Some t \<Rightarrow> Some \<lparr>name = files ! (k - i), type = t, size_entry = size_stats x\<rparr>))"
  using assms
proof (induction files arbitrary: i ty s)
  case Nil
  then show ?case by simp
next
  case (Cons nm rest)
  define ty' where "ty' = next_type cfg st nm ty"
  define s' where "s' = snd (loop_body cfg st nm i ty s)"
  have f: "fill_loop cfg st (nm # rest) i ty s = fill_loop cfg st rest (Suc i) ty' s'"
    by (simp add: fill_loop_Cons loop_body_fst ty'_def s'_def del: fill_loop.simps(2))
  have g: "ty' = None \<or> ty' = Some ''f'' \<or> ty' = Some ''d''"
    unfolding ty'_def using Cons.prems(1) by (rule next_type_good)
  show ?case
  proof (cases "k = i")
    case True
    have "map_of (fileList (fill_loop cfg st rest (Suc i) ty' s')) k = map_of (fileList s') k"
      using True by (intro fill_loop_outside) simp
    then show ?thesis
      unfolding f s'_def loop_body_at [OF Cons.prems(1)] using True
      by (simp split: sum.splits option.splits)
  next
    case False
    then have lt: "Suc i \<le> k" and up: "k < Suc i + length rest"
      using Cons.prems by simp_all
    have d: "k - i = Suc (k - Suc i)"
      using lt by simp
    have o: "map_of (fileList s') k = map_of (fileList s) k"
      unfolding s'_def using False by (rule loop_body_other)
    show ?thesis
      unfolding f Cons.IH [OF g lt up] o d
      by (simp add: ty'_def cong: sum.case_cong option.case_cong)
  qed
qed

lemma carried_type_none:
  "list_all (\<lambda>nm. \<not> reports_kind cfg st nm) xs \<Longrightarrow> carried_type cfg st xs ty = ty"
  by (induction xs arbitrary: ty) (auto simp: next_type_def reports_kind_def split: sum.splits)

lemma sorted_fill_loop:
  "sorted_wrt (<) (map fst (fileList s)) \<Longrightarrow>
   sorted_wrt (<) (map fst (fileList (fill_loop cfg st files i ty s)))"
proof (induction files arbitrary: i ty s)
  case Nil
  then show ?case by simp
next
  case (Cons nm rest)
  have "sorted_wrt (<) (map fst (fileList (snd (loop_body cfg st nm i ty s))))"
    using loop_body_fileList [of cfg st nm i ty s] Cons.prems
    by (auto simp: sorted_obj_set)
  then show ?case
    unfolding fill_loop_Cons by (rule Cons.IH)
qed

lemma fill_loop_trace:
  "trace (fill_loop cfg st files i ty s) = trace s @ fill_logs cfg st files"
  by (induction files arbitrary: i ty s)
     (simp_all add: fill_loop_Cons loop_body_trace fill_logs_def del: fill_loop.simps(2))

text \<open>
  On a regular listing the loop stores what the specification describes: from a file list
  whose indices are all below \<open>i\<close>, it appends the entries of the listing, in the order
  of the listing.
\<close>

lemma loop_body_regular:
  assumes "file_or_directory cfg st nm" and "list_all (\<lambda>ie. fst ie < i) (fileList s)"
  shows "fileList (snd (loop_body cfg st nm i ty s)) = fileList s @ listing_entries cfg st [nm] i"
  using assms
  by (auto simp: loop_body_def file_or_directory_def Let_def obj_set_append split: sum.splits)

lemma fill_loop_regular:
  "list_all (file_or_directory cfg st) files \<Longrightarrow> list_all (\<lambda>ie. fst ie < i) (fileList s) \<Longrightarrow>
   fileList (fill_loop cfg st files i ty s) = fileList s @ listing_entries cfg st files i"
proof (induction files arbitrary: i ty s)
  case Nil
  then show ?case by simp
next
  case (Cons nm rest)
  have b: "fileList (snd (loop_body cfg st nm i ty s)) = fileList s @ listing_entries cfg st [nm] i"
    using Cons.prems by (intro loop_body_regular) simp_all
  have k: "list_all (\<lambda>ie. fst ie < Suc i) (fileList (snd (loop_body cfg st nm i ty s)))"
    unfolding b using Cons.prems(2)
    by (auto simp: list_all_iff split: sum.splits if_splits)
  have r: "list_all (file_or_directory cfg st) rest"
    using Cons.prems(1) by simp
  show ?case
    unfolding fill_loop_Cons Cons.IH [OF r k] b by simp
qed

subsection \<open>Bursts of change notifications\<close>

lemma burst_counts:
  "pending (burst cfg cb ts s) = pending s @ replicate (length ts) cb \<and>
   timers (burst cfg cb ts s) = timers s \<and>
   trace (burst cfg cb ts s) = trace s @ replicate (length ts) (Readdir (filesDir cfg))"
  by (induction ts arbitrary: s) (simp_all add: prepareFileList_run replicate_app_Cons_same)

lemma burst_last: "last_date (burst cfg cb (ts @ [t]) s) = Some t"
  by (induction ts arbitrary: s) (simp_all add: prepareFileList_run)

text \<open>
  C1. The claim is that a burst of calls of \<open>prepareFileList\<close> within one window of 200 ms
  leads to one rebuild, no sooner than 200 ms after the last call. The program runs the
  rebuild inside every call: with the first reading of the directory done, two calls at
  250 ms and 300 ms leave two directory readings issued and outstanding, the first started
  at 250 (where \<open>last\<close> is set) and the second at 300, the file list emptied, and no timer
  set at any point.
\<close>

theorem prepareFileList_runs_at_every_call:
  "burst cfg0 (Some SendUpdateCb) [250, 300] served =
     served\<lparr>fileList := [], last_date := Some 300,
            pending := [Some SendUpdateCb, Some SendUpdateCb],
            trace := trace served @ [Readdir ''./files/'', Readdir ''./files/'']\<rparr>
   \<and> last_date (burst cfg0 (Some SendUpdateCb) [250] served) = Some 250
   \<and> pending (burst cfg0 (Some SendUpdateCb) [250] served) = [Some SendUpdateCb]
   \<and> timers (burst cfg0 (Some SendUpdateCb) [250] served) = []
   \<and> timers (burst cfg0 (Some SendUpdateCb) [250, 300] served) = []"
  by (simp add: served_eq prepareFileList_run run_def fx_def cfg0_def)

subsection \<open>The file list between handlers\<close>

text \<open>
  C2, as amended. The file list is one shared object, emptied and filled in place.
  \<open>run\<close> leaves it empty at once, before the directory reading returns; \<open>SendUpdate\<close>
  sends to every connected socket the object as it stands when it runs. The callback of the
  directory reading writes into the object as it finds it. At an index below the length of
  its listing: where the metadata lookup of the listed name reports a directory or a plain
  file, it stores the entry with that name, the kind \<open>d\<close> or \<open>f\<close> and the reported size;
  where the lookup fails, and where it reports another kind and no name before it in the
  listing is a file or a directory, it leaves what was there. It leaves each index from
  the length of the listing on as it was, keeps the indices in ascending order, and stores
  nothing but entries with a listed name at its index and the kind \<open>f\<close> or \<open>d\<close>.
\<close>

theorem fileList_reset_and_filled_in_place:
  "fileList (run cfg now cb s) = [] \<and>
   trace (SendUpdate s) =
     trace s @ map (\<lambda>c. Push c ''UPDATE_FILES'' (stringify (fileList_json (fileList s)))) (sockets s) \<and>
   (\<forall>k<length files.
      case statSync (filesDir cfg @ files ! k) of
        Inl error \<Rightarrow>
          map_of (fileList (snd (readdir_cb cfg statSync cb' (Inr files) s))) k = map_of (fileList s) k
      | Inr st \<Rightarrow>
          (isDirectory st \<longrightarrow>
             map_of (fileList (snd (readdir_cb cfg statSync cb' (Inr files) s))) k =
               Some \<lparr>name = files ! k, type = ''d'', size_entry = size_stats st\<rparr>) \<and>
          (isFile st \<and> \<not> isDirectory st \<longrightarrow>
             map_of (fileList (snd (readdir_cb cfg statSync cb' (Inr files) s))) k =
               Some \<lparr>name = files ! k, type = ''f'', size_entry = size_stats st\<rparr>) \<and>
          (\<not> isFile st \<and> \<not> isDirectory st \<and>
           list_all (\<lambda>nm. \<not> reports_kind cfg statSync nm) (take k files) \<longrightarrow>
             map_of (fileList (snd (readdir_cb cfg statSync cb' (Inr files) s))) k =
               map_of (fileList s) k)) \<and>
   (\<forall>k\<ge>length files.
      map_of (fileList (snd (readdir_cb cfg statSync cb' (Inr files) s))) k = map_of (fileList s) k) \<and>
   (sorted_wrt (<) (map fst (fileList s)) \<longrightarrow>
      sorted_wrt (<) (map fst (fileList (snd (readdir_cb cfg statSync cb' (Inr files) s))))) \<and>
   (\<forall>k e. (k, e) \<in> set (fileList (snd (readdir_cb cfg statSync cb' (Inr files) s))) \<longrightarrow>
      (k, e) \<in> set (fileList s) \<or>
      (k < length files \<and> name e = files ! k \<and> (type e = ''f'' \<or> type e = ''d'')))"
proof -
  define F where "F = fileList (snd (readdir_cb cfg statSync cb' (Inr files) s))"
  have f: "F = fileList (fill_loop cfg statSync files 0 None s)"
    by (simp add: F_def readdir_cb_def call_callback_def split: option.splits callback.splits)
  have inside: "case statSync (filesDir cfg @ files ! k) of
        Inl error \<Rightarrow> map_of F k = map_of (fileList s) k
      | Inr st \<Rightarrow>
          (isDirectory st \<longrightarrow>
             map_of F k = Some \<lparr>name = files ! k, type = ''d'', size_entry = size_stats st\<rparr>) \<and>
          (isFile st \<and> \<not> isDirectory st \<longrightarrow>
             map_of F k = Some \<lparr>name = files ! k, type = ''f'', size_entry = size_stats st\<rparr>) \<and>
          (\<not> isFile st \<and> \<not> isDirectory st \<and>
           list_all (\<lambda>nm. \<not> reports_kind cfg statSync nm) (take k files) \<longrightarrow>
             map_of F k = map_of (fileList s) k)"
    if k: "k < length files" for k
  proof -
    have at: "map_of F k =
       (case statSync (filesDir cfg @ files ! k) of
          Inl error \<Rightarrow> map_of (fileList s) k
        | Inr x \<Rightarrow>
            (case next_type cfg statSync (files ! k) (carried_type cfg statSync (take k files) None) of
               None \<Rightarrow> map_of (fileList s) k
             | Some t \<Rightarrow> Some \<lparr>name = files ! k, type = t, size_entry = size_stats x\<rparr>))"
      unfolding f using fill_loop_at [of None 0 k files cfg statSync s] k
      by (simp cong: sum.case_cong option.case_cong)
    show ?thesis
    proof (cases "statSync (filesDir cfg @ files ! k)")
      case (Inl error)
      then show ?thesis
        using at by simp
    next
      case (Inr st)
      have d: "isDirectory st \<Longrightarrow> next_type cfg statSync (files ! k) ty = Some ''d''" for ty
        using Inr by (simp add: next_type_def)
      have fl: "isFile st \<Longrightarrow> \<not> isDirectory st \<Longrightarrow> next_type cfg statSync (files ! k) ty = Some ''f''"
        for ty
        using Inr by (simp add: next_type_def)
      have o: "\<not> isFile st \<Longrightarrow> \<not> isDirectory st \<Longrightarrow>
          list_all (\<lambda>nm. \<not> reports_kind cfg statSync nm) (take k files) \<Longrightarrow>
          next_type cfg statSync (files ! k) (carried_type cfg statSync (take k files) None) = None"
        using Inr by (simp add: next_type_def carried_type_none)
      show ?thesis
        using at Inr d fl o by (auto simp del: carried_type.simps)
    qed
  qed
  have beyond: "\<forall>k\<ge>length files. map_of F k = map_of (fileList s) k"
    unfolding f using fill_loop_outside [of _ 0 files cfg statSync None s] by simp
  have sorted: "sorted_wrt (<) (map fst (fileList s)) \<longrightarrow> sorted_wrt (<) (map fst F)"
    unfolding f by (simp add: sorted_fill_loop)
  have bound: "\<forall>k e. (k, e) \<in> set F \<longrightarrow>
      (k, e) \<in> set (fileList s) \<or>
      (k < length files \<and> name e = files ! k \<and> (type e = ''f'' \<or> type e = ''d''))"
    unfolding f using fill_loop_stored [of _ _ cfg statSync files 0 None s] by simp
  have reset: "fileList (run cfg now cb s) = []"
    by simp
  have send: "trace (SendUpdate s) =
     trace s @ map (\<lambda>c. Push c ''UPDATE_FILES'' (stringify (fileList_json (fileList s)))) (sockets s)"
    by (simp add: pushes_def)
  show ?thesis
    unfolding F_def [symmetric]
    using reset send inside beyond sorted bound by blast
qed

theorem fileList_reset_and_filled_in_place_witness:
  "fs1 (filesDir cfg0 @ [''a.txt'', ''sub''] ! 0) = Inl ENOENT \<and>
   fs1 (filesDir cfg0 @ [''a.txt'', ''sub''] ! 1) =
     Inr \<lparr>isFile = False, isDirectory = True, size_stats = 0\<rparr> \<and>
   (2::nat) \<ge> length [''a.txt'', ''sub''] \<and>
   fileList (run cfg0 300 None (served\<lparr>fileList := [(0, a_txt), (2, sub_dir)]\<rparr>)) = [] \<and>
   map_of (fileList (snd (readdir_cb cfg0 fs1 None (Inr [''a.txt'', ''sub''])
                            (served\<lparr>fileList := [(0, a_txt), (2, sub_dir)]\<rparr>)))) 0 = Some a_txt \<and>
   map_of (fileList (snd (readdir_cb cfg0 fs1 None (Inr [''a.txt'', ''sub''])
                            (served\<lparr>fileList := [(0, a_txt), (2, sub_dir)]\<rparr>)))) 1 = Some sub_dir \<and>
   map_of (fileList (snd (readdir_cb cfg0 fs1 None (Inr [''a.txt'', ''sub''])
                            (served\<lparr>fileList := [(0, a_txt), (2, sub_dir)]\<rparr>)))) 2 = Some sub_dir"
proof -
  define s where "s = served\<lparr>fileList := [(0, a_txt), (2, sub_dir)]\<rparr>"
  define F where "F = fileList (snd (readdir_cb cfg0 fs1 None (Inr [''a.txt'', ''sub'']) s))"
  note t = fileList_reset_and_filled_in_place
    [of cfg0 300 None s "[''a.txt'', ''sub'']" fs1 None, folded F_def]
  have s0: "fs1 (filesDir cfg0 @ [''a.txt'', ''sub''] ! 0) = Inl ENOENT"
    by (simp add: fs1_def cfg0_def)
  have s1: "fs1 (filesDir cfg0 @ [''a.txt'', ''sub''] ! 1) =
     Inr \<lparr>isFile = False, isDirectory = True, size_stats = 0\<rparr>"
    by (simp add: fs1_def fs0_def cfg0_def)
  have r: "fileList (run cfg0 300 None s) = []"
    using t by blast
  have inside: "\<forall>k<length [''a.txt'', ''sub''].
      case fs1 (filesDir cfg0 @ [''a.txt'', ''sub''] ! k) of
        Inl error \<Rightarrow> map_of F k = map_of (fileList s) k
      | Inr st \<Rightarrow>
          (isDirectory st \<longrightarrow>
             map_of F k = Some \<lparr>name = [''a.txt'', ''sub''] ! k, type = ''d'', size_entry = size_stats st\<rparr>) \<and>
          (isFile st \<and> \<not> isDirectory st \<longrightarrow>
             map_of F k = Some \<lparr>name = [''a.txt'', ''sub''] ! k, type = ''f'', size_entry = size_stats st\<rparr>) \<and>
          (\<not> isFile st \<and> \<not> isDirectory st \<and>
           list_all (\<lambda>nm. \<not> reports_kind cfg0 fs1 nm) (take k [''a.txt'', ''sub'']) \<longrightarrow>
             map_of F k = map_of (fileList s) k)"
    using t by blast
  have beyond: "\<forall>k\<ge>length [''a.txt'', ''sub'']. map_of F k = map_of (fileList s) k"
    using t by blast
  have k0: "map_of F 0 = Some a_txt"
    using inside [rule_format, of 0] unfolding s0 by (simp add: s_def)
  have k1: "map_of F 1 = Some sub_dir"
    using inside [rule_format, of 1] unfolding s1 by (simp add: sub_dir_def)
  have k2: "map_of F 2 = Some sub_dir"
    using beyond [rule_format, of 2] by (simp add: s_def)
  show ?thesis
    using s0 s1 r k0 k1 k2 unfolding F_def s_def by simp
qed

text \<open>
  The claim C2 as stated fails. With \<open>a.txt\<close> listed and published, a change notification
  empties the file list, and a client that asks for an update before the directory reading
  returns is sent the empty object. And when \<open>a.txt\<close> is removed while two readings are
  outstanding, the first of which still lists it, the second callback fills the object the
  first one has written to: \<open>sub\<close> stays at index 1 and is stored at index 0 as well,
  which no listing of the directory ever was.
\<close>

theorem snapshot_counterexample:
  "fileList served = [(0, a_txt)] \<and>
   trace (on_REQUEST_UPDATE 1 (on_watch cfg0 300 ''change'' served)) =
     trace served @ [Readdir ''./files/'', Push 1 ''UPDATE_FILES'' ''{}''] \<and>
   fileList (readdir_done cfg0 fs1 (Inr [''sub''])
              (readdir_done cfg0 fs1 (Inr [''a.txt'', ''sub''])
                (on_watch cfg0 310 ''rename'' (on_watch cfg0 300 ''change'' served)))) =
     [(0, sub_dir), (1, sub_dir)]"
  by (simp add: served_eq on_watch_def prepareFileList_run on_REQUEST_UPDATE_def pushes_def
      fileList_json_def run_def fx_def cfg0_def readdir_done_def run_handler_def readdir_cb_def
      call_callback_def fs1_def fs0_def sub_dir_def ENOENT_def SendUpdate_def emit_def
      handleError_def log_def loop_body_def)

subsection \<open>Requests for an update\<close>

lemma pushes_to_append: "pushes_to k (xs @ ys) = pushes_to k xs + pushes_to k ys"
  by (simp add: pushes_to_def)

lemma pushes_to_map: "pushes_to k (map (\<lambda>c. Push c ev p) cs) = count_list cs k"
  by (induction cs) (simp_all add: pushes_to_def is_push_to_def)

lemma count_list_distinct: "distinct xs \<Longrightarrow> k \<in> set xs \<Longrightarrow> count_list xs k = 1"
  by (induction xs) auto

text \<open>
  C3, as amended. When a socket sends \<open>REQUEST_UPDATE\<close>, every connected socket, the sender
  among them, is sent one \<open>UPDATE_FILES\<close> push with the current file list, in the order of
  connection, and nothing else changes: the number of pushes to any socket grows by the
  number of times it is among the connected sockets, which is one for a connected socket
  and zero for any other.
\<close>

theorem request_update_broadcasts:
  "on_REQUEST_UPDATE c s =
     s\<lparr>trace := trace s @
          map (\<lambda>k. Push k ''UPDATE_FILES'' (stringify (fileList_json (fileList s)))) (sockets s)\<rparr> \<and>
   pushes_to k (trace (on_REQUEST_UPDATE c s)) = pushes_to k (trace s) + count_list (sockets s) k \<and>
   (distinct (sockets s) \<and> k \<in> set (sockets s) \<longrightarrow>
      pushes_to k (trace (on_REQUEST_UPDATE c s)) = pushes_to k (trace s) + 1)"
proof -
  have e: "on_REQUEST_UPDATE c s =
     s\<lparr>trace := trace s @
          map (\<lambda>k. Push k ''UPDATE_FILES'' (stringify (fileList_json (fileList s)))) (sockets s)\<rparr>"
    by (simp add: on_REQUEST_UPDATE_def SendUpdate_def emit_def)
  have n: "pushes_to k (trace (on_REQUEST_UPDATE c s)) = pushes_to k (trace s) + count_list (sockets s) k"
    unfolding e by (simp add: pushes_to_append pushes_to_map)
  have d: "distinct (sockets s) \<and> k \<in> set (sockets s) \<longrightarrow> count_list (sockets s) k = 1"
    by (simp add: count_list_distinct)
  show ?thesis
    using e n d by simp
qed

theorem request_update_broadcasts_witness:
  "distinct (sockets (on_connection 2 served)) \<and> 2 \<in> set (sockets (on_connection 2 served)) \<and>
   pushes_to 2 (trace (on_connection 2 served)) = 0 \<and>
   pushes_to 2 (trace (on_REQUEST_UPDATE 1 (on_connection 2 served))) = 1 \<and>
   pushes_to 1 (trace (on_REQUEST_UPDATE 1 (on_connection 2 served))) = 1 \<and>
   pushes_to 3 (trace (on_REQUEST_UPDATE 1 (on_connection 2 served))) = 0"
proof -
  have s: "sockets (on_connection 2 served) = [1, 2]"
    by (simp add: on_connection_def served_eq)
  have t: "pushes_to k (trace (on_connection 2 served)) = 0" for k
    by (simp add: on_connection_def served_eq pushes_to_def is_push_to_def)
  note n = request_update_broadcasts [of 1 "on_connection 2 served", THEN conjunct2, THEN conjunct1]
  show ?thesis
    using n [of 1] n [of 2] n [of 3]
    by (simp add: s t)
qed

text \<open>The claim C3 as stated fails: with sockets 1 and 2 connected, the request of socket 1
  is answered by a push to socket 2 as well.\<close>

theorem request_update_counterexample:
  "trace (on_REQUEST_UPDATE 1 (on_connection 2 served)) =
     trace served @
       [Push 1 ''UPDATE_FILES'' (stringify (fileList_json [(0, a_txt)])),
        Push 2 ''UPDATE_FILES'' (stringify (fileList_json [(0, a_txt)]))]"
  by (simp add: on_REQUEST_UPDATE_def on_connection_def pushes_def served_eq)

subsection \<open>Failed deletes and uploads\<close>

text \<open>
  C4, as amended. A delete request for a path whose metadata lookup fails, a delete request
  whose call of \<open>fs.unlink\<close> or \<open>fs.rmdir\<close> throws, a delete request whose directory
  reading fails, and a failed upload each lead to one push of the file list as it stands to
  every connected socket, after the response 500 and the log lines in the case of a delete;
  the file list, the time of the last rebuild, the outstanding directory readings and the
  timers stay as they were: no rebuild is started. A delete request whose call of
  \<open>fs.unlink\<close> or \<open>fs.rmdir\<close> returns is answered with 200 and nothing is pushed,
  whatever becomes of the removal afterwards.
\<close>

theorem failed_delete_broadcasts_without_rebuild:
  "(statSync (delete_path cfg unescape url) = Inl error \<longrightarrow>
      handleDeleteRequest_cb cfg unescape statSync removal url (Inr files) s =
        s\<lparr>trace := trace s @ [Log (''DEL:  '' @ delete_path cfg unescape url), WriteHead 500 [], End None]
                   @ error_lines error @ pushes s\<rparr>) \<and>
   handleDeleteRequest_cb cfg unescape statSync removal url (Inl err) s =
        s\<lparr>trace := trace s @ [WriteHead 500 [], End None] @ error_lines err @ pushes s\<rparr> \<and>
   upload_error err s = s\<lparr>trace := trace s @ error_lines err @ pushes s\<rparr> \<and>
   (statSync (delete_path cfg unescape url) = Inr st \<and>
    (if isFile st then removal (Unlink (delete_path cfg unescape url))
     else if isDirectory st then removal (Rmdir (delete_path cfg unescape url))
     else None) = Some thrown \<longrightarrow>
      handleDeleteRequest_cb cfg unescape statSync removal url (Inr files) s =
        s\<lparr>trace := trace s @ [Log (''DEL:  '' @ delete_path cfg unescape url), WriteHead 500 [], End None]
                   @ error_lines thrown @ pushes s\<rparr>) \<and>
   (statSync (delete_path cfg unescape url) = Inr st \<and>
    (if isFile st then removal (Unlink (delete_path cfg unescape url))
     else if isDirectory st then removal (Rmdir (delete_path cfg unescape url))
     else None) = None \<longrightarrow>
      handleDeleteRequest_cb cfg unescape statSync removal url (Inr files) s =
        s\<lparr>trace := trace s @ [Log (''DEL:  '' @ delete_path cfg unescape url)]
                   @ (if isFile st then [Unlink (delete_path cfg unescape url)]
                      else if isDirectory st then [Rmdir (delete_path cfg unescape url)] else [])
                   @ [WriteHead 200 [(''Content-Type'', ''text/html'')], End None]\<rparr>)"
  by (simp add: handleDeleteRequest_cb_def delete_catch_def upload_error_def Let_def)

theorem failed_delete_broadcasts_without_rebuild_witness:
  "fs0 (delete_path cfg0 (\<lambda>x. x) ''/delete/gone'') = Inl ENOENT \<and>
   handleDeleteRequest_cb cfg0 (\<lambda>x. x) fs0 (\<lambda>e. None) ''/delete/gone'' (Inr [''a.txt'']) served =
     served\<lparr>trace := trace served @
        [Log ''DEL:  ./files/gone'', WriteHead 500 [], End None,
         Log ''ENOENT, no such file or directory'',
         Push 1 ''UPDATE_FILES'' (stringify (fileList_json [(0, a_txt)]))]\<rparr> \<and>
   fs0 (delete_path cfg0 (\<lambda>x. x) ''/delete/a.txt'') =
     Inr \<lparr>isFile = True, isDirectory = False, size_stats = 10\<rparr> \<and>
   handleDeleteRequest_cb cfg0 (\<lambda>x. x) fs0 (\<lambda>e. Some (TypeError ''callback must be a function''))
       ''/delete/a.txt'' (Inr [''a.txt'']) served =
     served\<lparr>trace := trace served @
        [Log ''DEL:  ./files/a.txt'', WriteHead 500 [], End None,
         Log ''callback must be a function'', Log ''TypeError: callback must be a function'',
         Push 1 ''UPDATE_FILES'' (stringify (fileList_json [(0, a_txt)]))]\<rparr> \<and>
   handleDeleteRequest_cb cfg0 (\<lambda>x. x) fs0 (\<lambda>e. None) ''/delete/a.txt'' (Inr [''a.txt'']) served =
     served\<lparr>trace := trace served @
        [Log ''DEL:  ./files/a.txt'', Unlink ''./files/a.txt'',
         WriteHead 200 [(''Content-Type'', ''text/html'')], End None]\<rparr>"
proof -
  have h: "fs0 (delete_path cfg0 (\<lambda>x. x) ''/delete/gone'') = Inl ENOENT"
    by (simp add: delete_path_def strip_delete_def cfg0_def fs0_def)
  have p: "delete_path cfg0 (\<lambda>x. x) ''/delete/gone'' = ''./files/gone''"
    by (simp add: delete_path_def strip_delete_def cfg0_def)
  have h': "fs0 (delete_path cfg0 (\<lambda>x. x) ''/delete/a.txt'') =
     Inr \<lparr>isFile = True, isDirectory = False, size_stats = 10\<rparr>"
    by (simp add: delete_path_def strip_delete_def cfg0_def fs0_def)
  have p': "delete_path cfg0 (\<lambda>x. x) ''/delete/a.txt'' = ''./files/a.txt''"
    by (simp add: delete_path_def strip_delete_def cfg0_def)
  note t = failed_delete_broadcasts_without_rebuild
  have a: "handleDeleteRequest_cb cfg0 (\<lambda>x. x) fs0 (\<lambda>e. None) ''/delete/gone'' (Inr [''a.txt'']) served =
     served\<lparr>trace := trace served @
        [Log ''DEL:  ./files/gone'', WriteHead 500 [], End None,
         Log ''ENOENT, no such file or directory'',
         Push 1 ''UPDATE_FILES'' (stringify (fileList_json [(0, a_txt)]))]\<rparr>"
    using t [of fs0 cfg0 "\<lambda>x. x" "''/delete/gone''" ENOENT "\<lambda>e. None" "[''a.txt'']" served,
        THEN conjunct1] h
    by (simp add: p error_lines_def ENOENT_def pushes_def served_eq)
  have b: "handleDeleteRequest_cb cfg0 (\<lambda>x. x) fs0 (\<lambda>e. Some (TypeError ''callback must be a function''))
       ''/delete/a.txt'' (Inr [''a.txt'']) served =
     served\<lparr>trace := trace served @
        [Log ''DEL:  ./files/a.txt'', WriteHead 500 [], End None,
         Log ''callback must be a function'', Log ''TypeError: callback must be a function'',
         Push 1 ''UPDATE_FILES'' (stringify (fileList_json [(0, a_txt)]))]\<rparr>"
    using t [of fs0 cfg0 "\<lambda>x. x" "''/delete/a.txt''" _
        "\<lambda>e. Some (TypeError ''callback must be a function'')" "[''a.txt'']" served _
        "\<lparr>isFile = True, isDirectory = False, size_stats = 10\<rparr>"
        "TypeError ''callback must be a function''",
        THEN conjunct2, THEN conjunct2, THEN conjunct2, THEN conjunct1] h'
    by (simp add: p' error_lines_def TypeError_def pushes_def served_eq)
  have c: "handleDeleteRequest_cb cfg0 (\<lambda>x. x) fs0 (\<lambda>e. None) ''/delete/a.txt'' (Inr [''a.txt'']) served =
     served\<lparr>trace := trace served @
        [Log ''DEL:  ./files/a.txt'', Unlink ''./files/a.txt'',
         WriteHead 200 [(''Content-Type'', ''text/html'')], End None]\<rparr>"
    using t [of fs0 cfg0 "\<lambda>x. x" "''/delete/a.txt''" _ "\<lambda>e. None" "[''a.txt'']" served _
        "\<lparr>isFile = True, isDirectory = False, size_stats = 10\<rparr>",
        THEN conjunct2, THEN conjunct2, THEN conjunct2, THEN conjunct2] h'
    by (simp add: p')
  show ?thesis
    using h h' a b c by simp
qed

text \<open>
  The claim C4 as stated fails. \<open>a.txt\<close> is listed and has since been removed; the delete
  request for it is answered with 500 and the file list that still names \<open>a.txt\<close> is pushed;
  no directory reading of a rebuild is outstanding afterwards and the time of the last
  rebuild is still that of startup. The one \<open>Readdir\<close> is the handler's own.
\<close>

theorem failed_delete_counterexample:
  "handleDeleteRequest_cb cfg0 (\<lambda>x. x) fs_empty (\<lambda>e. None) ''/delete/a.txt'' (Inr [])
       (handleDeleteRequest cfg0 served) =
     served\<lparr>trace := trace served @
        [Readdir ''./files/'', Log ''DEL:  ./files/a.txt'', WriteHead 500 [], End None,
         Log ''ENOENT, no such file or directory'',
         Push 1 ''UPDATE_FILES'' (stringify (fileList_json [(0, a_txt)]))]\<rparr>
   \<and> pending (handleDeleteRequest_cb cfg0 (\<lambda>x. x) fs_empty (\<lambda>e. None) ''/delete/a.txt'' (Inr [])
                (handleDeleteRequest cfg0 served)) = []
   \<and> last_date (handleDeleteRequest_cb cfg0 (\<lambda>x. x) fs_empty (\<lambda>e. None) ''/delete/a.txt'' (Inr [])
                  (handleDeleteRequest cfg0 served)) = Some 0"
  by (simp add: handleDeleteRequest_cb_def delete_catch_def handleDeleteRequest_def delete_path_def
      strip_delete_def fs_empty_def Let_def cfg0_def ENOENT_def error_lines_def pushes_def served_eq)

subsection \<open>The payload of a push\<close>

lemma fileList_json_member: "fileList_json fl = JObject (map member fl)"
  by (simp add: fileList_json_def member_def entry_json_def case_prod_beta)

lemma stored_ok_Nil [simp]: "stored_ok []"
  by (simp add: stored_ok_def)

lemma stored_ok_obj_set:
  "stored_ok fl \<Longrightarrow> t = ''f'' \<or> t = ''d'' \<Longrightarrow>
   stored_ok (obj_set i \<lparr>name = nm, type = t, size_entry = n\<rparr> fl)"
  unfolding stored_ok_def list_all_iff
  by (auto dest!: in_obj_set intro: sorted_obj_set)

lemma stored_ok_loop_body:
  "stored_ok (fileList s) \<Longrightarrow> stored_ok (fileList (snd (loop_body cfg st nm i ty s)))"
  using loop_body_fileList [of cfg st nm i ty s]
  by (auto simp: stored_ok_obj_set)

lemma stored_ok_fill_loop:
  "stored_ok (fileList s) \<Longrightarrow> stored_ok (fileList (fill_loop cfg st files i ty s))"
  by (induction files arbitrary: i ty s)
     (simp_all add: fill_loop_Cons stored_ok_loop_body del: fill_loop.simps(2))

lemma sent_by_simps [simp]:
  "sent_by s (Log m)" "sent_by s IoListen" "sent_by s (Watch d)" "sent_by s OnConnection"
  "sent_by s (Readdir d)" "sent_by s (Stat d)" "sent_by s (Mkdir d)" "sent_by s (Unlink d)"
  "sent_by s (Rmdir d)" "sent_by s (WriteHead n hs)" "sent_by s (End x)" "sent_by s (Pipe d)"
  "sent_by s (Listen k)"
  by (simp_all add: sent_by_def)

lemma sent_by_error_lines [simp]: "list_all (sent_by s) (error_lines err)"
  by (simp add: error_lines_def list_all_iff sent_by_def)

lemma sent_by_fill_logs [simp]: "list_all (sent_by s) (fill_logs cfg st files)"
  by (induction files) (simp_all add: fill_logs_def split: sum.splits)

lemma sent_by_pushes:
  "fileList t = fileList s \<Longrightarrow> sockets t = sockets s \<Longrightarrow> list_all (sent_by s) (pushes t)"
  by (simp add: pushes_def list_all_iff sent_by_def)

lemma uncaughtException_simps [simp]:
  "fileList (uncaughtException err s) = fileList s" "sockets (uncaughtException err s) = sockets s"
  "trace (uncaughtException err s) =
     trace s @ [Log ''=============== Uncaught exception! ===============''] @ error_lines err"
  by (simp_all add: uncaughtException_def)

lemma extends_iff: "extends s s' \<longleftrightarrow> (\<exists>new. trace s' = trace s @ new)"
proof
  assume "extends s s'"
  then have "trace s' = trace s @ drop (length (trace s)) (trace s')"
    unfolding extends_def by (metis append_take_drop_id)
  then show "\<exists>new. trace s' = trace s @ new" ..
next
  assume "\<exists>new. trace s' = trace s @ new"
  then show "extends s s'"
    by (auto simp: extends_def)
qed

lemma extends_refl: "extends s s"
  by (simp add: extends_def)

lemma extends_trans: "extends a b \<Longrightarrow> extends b c \<Longrightarrow> extends a c"
  unfolding extends_iff by auto

lemma sentI:
  "trace s' = trace s @ new \<Longrightarrow> list_all (sent_by s') new \<Longrightarrow> stored_ok (fileList s') \<Longrightarrow>
   extends s s' \<and> list_all (sent_by s') (appended s s') \<and> stored_ok (fileList s')"
  by (simp add: extends_def appended_def)

text \<open>Every handler extends the trace, and the pushes it appends carry the file list it
  leaves.\<close>

lemma step_sent:
  assumes "step cfg s s'" and ok: "stored_ok (fileList s)"
  shows "extends s s' \<and> list_all (sent_by s') (appended s s') \<and> stored_ok (fileList s')"
  using assms(1)
proof cases
  case (watch now event)
  show ?thesis
    unfolding watch
    by (rule sentI [where new = "if event = ''change'' \<or> event = ''rename''
                                 then [Readdir (filesDir cfg)] else []"])
       (simp_all add: on_watch_def prepareFileList_run ok)
next
  case (readdir statSync n r)
  show ?thesis
  proof (cases "n < length (pending s)")
    case False
    then show ?thesis
      unfolding readdir
      by (intro sentI [where new = "[]"]) (simp_all add: readdir_done_at_def ok)
  next
    case True
    define s0 where "s0 = s\<lparr>pending := take n (pending s) @ drop (Suc n) (pending s)\<rparr>"
    have s0: "fileList s0 = fileList s" "sockets s0 = sockets s" "trace s0 = trace s"
      by (simp_all add: s0_def)
    have e: "s' = run_handler (readdir_cb cfg statSync (pending s ! n) r s0)"
      unfolding readdir s0_def using True by (simp add: readdir_done_at_def)
    show ?thesis
    proof (cases r)
      case (Inl err)
      show ?thesis
        unfolding e Inl
        by (rule sentI [where new = "error_lines err
              @ [Log ''=============== Uncaught exception! ===============''] @
              error_lines (TypeError ''Cannot read property length of undefined'')"])
           (simp_all add: readdir_cb_def run_handler_def s0 ok)
    next
      case (Inr files)
      define t where "t = fill_loop cfg statSync files 0 None s0"
      have t: "trace t = trace s @ fill_logs cfg statSync files" "sockets t = sockets s"
        "stored_ok (fileList t)"
        by (simp_all add: t_def fill_loop_trace s0 stored_ok_fill_loop ok)
      show ?thesis
      proof (cases "pending s ! n")
        case None
        show ?thesis
          unfolding e Inr None
          by (rule sentI [where new = "fill_logs cfg statSync files"])
             (simp_all add: readdir_cb_def run_handler_def call_callback_def t t_def [symmetric])
      next
        case (Some cb)
        show ?thesis
          unfolding e Inr Some
          by (rule sentI [where new = "fill_logs cfg statSync files @ pushes t"])
             (simp_all add: readdir_cb_def run_handler_def call_callback_def t t_def [symmetric]
                sent_by_pushes split: callback.splits)
      qed
    qed
  qed
next
  case (connection c)
  show ?thesis
    unfolding connection
    by (rule sentI [where new = "[]"]) (simp_all add: on_connection_def ok)
next
  case (disconnect c)
  show ?thesis
    unfolding disconnect
    by (rule sentI [where new = "[]"]) (simp_all add: on_disconnect_def ok)
next
  case (request_update c)
  show ?thesis
    unfolding request_update
    by (rule sentI [where new = "pushes s"]) (simp_all add: on_REQUEST_UPDATE_def sent_by_pushes ok)
next
  case (create_folder c nm)
  show ?thesis
    unfolding create_folder
    by (rule sentI [where new = "[Mkdir (filesDir cfg @ nm)]"]) (simp_all add: on_CREATE_FOLDER_def ok)
next
  case (mkdir_done err)
  show ?thesis
    unfolding mkdir_done
    by (rule sentI [where new = "case err of None \<Rightarrow> [] | Some e \<Rightarrow> error_lines e"])
       (simp_all add: mkdir_cb_def ok split: option.splits)
next
  case (file_request unescape url)
  show ?thesis
    unfolding file_request
    by (rule sentI [where new = "if file_path cfg unescape url \<noteq> []
                                 then [Stat (file_path cfg unescape url)] else []"])
       (simp_all add: handleFileRequest_def Let_def ok)
next
  case (file_stat exponent_text socket path mimeType st)
  show ?thesis
  proof (cases st)
    case (Inl err)
    show ?thesis
      unfolding file_stat Inl
      by (rule sentI [where new = "[WriteHead 500 [], End None] @ error_lines err @ pushes s
            @ [Log ''=============== Uncaught exception! ===============''] @
            error_lines (TypeError ''Cannot read property size of undefined'')"])
         (simp_all add: handleFileRequest_cb_def send_file_def run_handler_def Let_def
            sent_by_pushes ok)
  next
    case (Inr x)
    show ?thesis
      unfolding file_stat Inr
      by (rule sentI [where new = "[Log (''SEND: '' @ socket @ [CHR 0x09, CHR 0x09] @ path @ '' (''
                        @ convertToSI exponent_text (size_stats x) @ '')''),
              WriteHead 200 [(''Content-Type'', mimeType),
                             (''Content-Length'', show_nat (size_stats x))],
              Pipe path]"])
         (simp_all add: handleFileRequest_cb_def send_file_def run_handler_def Let_def ok)
  qed
next
  case delete_request
  show ?thesis
    unfolding delete_request
    by (rule sentI [where new = "[Readdir (filesDir cfg)]"]) (simp_all add: handleDeleteRequest_def ok)
next
  case (delete_readdir unescape statSync removal url r)
  have c: "trace (delete_catch error t) = trace t @ [WriteHead 500 [], End None] @ error_lines error @ pushes t"
    "fileList (delete_catch error t) = fileList t" "sockets (delete_catch error t) = sockets t"
    for error t
    by (simp_all add: delete_catch_def Let_def)
  show ?thesis
    unfolding delete_readdir
    by (rule sentI [where new = "appended s (handleDeleteRequest_cb cfg unescape statSync removal url r s)"])
       (auto simp: handleDeleteRequest_cb_def Let_def c appended_def sent_by_pushes ok
          split: sum.splits option.splits)
next
  case (upload_request url)
  show ?thesis
    unfolding upload_request
    by (rule sentI [where new = "if url = ''/upload''
          then [WriteHead 200 [(''Content-Type'', ''text/html'')], End None] else []"])
       (simp_all add: handleUploadRequest_def ok)
next
  case (upload_begin socket file_name)
  show ?thesis
    unfolding upload_begin
    by (rule sentI [where new = "[Log (''RECV: '' @ socket @ [CHR 0x09, CHR 0x09] @ file_name)]"])
       (simp_all add: upload_fileBegin_def ok)
next
  case upload_done
  show ?thesis
    unfolding upload_done
    by (rule sentI [where new = "pushes s"]) (simp_all add: upload_end_def sent_by_pushes ok)
next
  case (upload_failed err)
  show ?thesis
    unfolding upload_failed
    by (rule sentI [where new = "error_lines err @ pushes s"])
       (simp_all add: upload_error_def sent_by_pushes ok)
qed

lemma startup_fileList: "fileList (startup cfg mkdir_err ssl_err lr now init) = []"
  by (simp add: startup_def Let_def server_on_listening_def server_on_error_def createWatcher_def
      setupSockets_def prepareFileList_run init_def split: option.splits listen_result.splits)

lemma startup_no_push: "Push c ev p \<notin> set (trace (startup cfg mkdir_err ssl_err lr now init))"
  by (auto simp: startup_def Let_def server_on_listening_def server_on_error_def createWatcher_def
      setupSockets_def prepareFileList_run init_def error_lines_def
      split: option.splits listen_result.splits if_splits)

lemma reachable_stored_ok: "reachable cfg s \<Longrightarrow> stored_ok (fileList s)"
proof (induction rule: reachable.induct)
  case (boot mkdir_err ssl_err lr now)
  show ?case by (simp add: startup_fileList)
next
  case (event s s')
  then show ?case using step_sent by blast
qed

text \<open>Where a push in the trace of a reachable state comes from: the handler that appended
  it, which ran in a reachable state.\<close>

lemma push_origin:
  assumes "reachable cfg s" and "i < length (trace s)" and "trace s ! i = Push c ev p"
  shows "\<exists>s0 s1. reachable cfg s0 \<and> step cfg s0 s1 \<and> length (trace s0) \<le> i \<and> i < length (trace s1)
           \<and> extends s1 s \<and> stored_ok (fileList s1) \<and> sent_by s1 (Push c ev p)"
  using assms
proof (induction rule: reachable.induct)
  case (boot mkdir_err ssl_err lr now)
  have "Push c ev p \<in> set (trace (startup cfg mkdir_err ssl_err lr now init))"
    using boot by (metis nth_mem)
  then show ?case
    using startup_no_push by blast
next
  case (event s s')
  have ok: "stored_ok (fileList s)"
    using event.hyps(1) by (rule reachable_stored_ok)
  have st: "extends s s'" "list_all (sent_by s') (appended s s')" "stored_ok (fileList s')"
    using step_sent [OF event.hyps(2) ok] by simp_all
  obtain new where new: "trace s' = trace s @ new"
    using st(1) unfolding extends_iff by blast
  have app: "appended s s' = new"
    by (simp add: appended_def new)
  show ?case
  proof (cases "i < length (trace s)")
    case True
    have "trace s ! i = Push c ev p"
      using event.prems(2) True by (simp add: new nth_append)
    then obtain s0 s1 where o: "reachable cfg s0" "step cfg s0 s1" "length (trace s0) \<le> i"
        "i < length (trace s1)" "extends s1 s" "stored_ok (fileList s1)" "sent_by s1 (Push c ev p)"
      using event.IH [OF True] by blast
    have "extends s1 s'"
      using o(5) st(1) by (rule extends_trans)
    then show ?thesis
      using o by blast
  next
    case False
    have "new ! (i - length (trace s)) = Push c ev p" and "i - length (trace s) < length new"
      using event.prems False by (simp_all add: new nth_append)
    then have "Push c ev p \<in> set new"
      by (metis nth_mem)
    then have "sent_by s' (Push c ev p)"
      using st(2) by (simp add: app list_all_iff)
    then show ?thesis
      using event.hyps event.prems(1) False st(3) extends_refl [of s']
      by (intro exI [of _ s] exI [of _ s']) simp
  qed
qed

lemma stringify_object_head: "take 1 (stringify (JObject ms)) = ''{''"
  by simp

lemma quote_plain:
  "quote ''0'' = [CHR 0x22] @ ''0'' @ [CHR 0x22]"
  "quote ''name'' = [CHR 0x22] @ ''name'' @ [CHR 0x22]"
  "quote ''type'' = [CHR 0x22] @ ''type'' @ [CHR 0x22]"
  "quote ''size'' = [CHR 0x22] @ ''size'' @ [CHR 0x22]"
  "quote ''a.txt'' = [CHR 0x22] @ ''a.txt'' @ [CHR 0x22]"
  "quote ''f'' = [CHR 0x22] @ ''f'' @ [CHR 0x22]"
  by (simp_all add: quote_def quote_char_def)

lemma sent_by_Push:
  "sent_by s (Push c ev p) \<Longrightarrow>
   ev = ''UPDATE_FILES'' \<and> c \<in> set (sockets s) \<and> p = stringify (JObject (map member (fileList s)))
   \<and> take 1 p = ''{''"
  by (simp add: sent_by_def fileList_json_member del: stringify.simps)
     (simp add: stringify_object_head)

text \<open>
  C5, as amended. Every push carries the event name \<open>UPDATE_FILES\<close> and, as its payload,
  the JSON text of an object, not of an array, that holds the file list as it is at the
  time of the push: the text opens with a brace and has one member per entry stored in the
  file list, whose key is the listing index of the entry in decimal, in ascending order,
  and whose value is the object with the members \<open>name\<close>, \<open>type\<close> and \<open>size\<close> of the
  entry, the type being \<open>f\<close> or \<open>d\<close>. In every reachable state: the pushes that the
  next handler appends to the trace go to sockets connected then and carry the file list
  that the handler leaves (no handler changes the file list after a push; the callback of
  the directory reading pushes the list as its loop has just filled it); every push at any
  position of the trace was appended by a handler that ran in a reachable state, and
  carries the file list that handler left; and a \<open>SendUpdate\<close> sends the current file
  list in that form to every connected socket.
\<close>

theorem update_payload_is_indexed_object:
  assumes "reachable cfg s"
  shows "stored_ok (fileList s) \<and>
    (\<forall>s'. step cfg s s' \<longrightarrow>
       extends s s' \<and> stored_ok (fileList s') \<and>
       (\<forall>c ev p. Push c ev p \<in> set (appended s s') \<longrightarrow>
          ev = ''UPDATE_FILES'' \<and> c \<in> set (sockets s') \<and>
          p = stringify (JObject (map member (fileList s'))) \<and> take 1 p = ''{'')) \<and>
    (\<forall>i c ev p. i < length (trace s) \<and> trace s ! i = Push c ev p \<longrightarrow>
       (\<exists>s0 s1. reachable cfg s0 \<and> step cfg s0 s1 \<and> length (trace s0) \<le> i \<and> i < length (trace s1)
          \<and> extends s1 s \<and> stored_ok (fileList s1) \<and>
          ev = ''UPDATE_FILES'' \<and> c \<in> set (sockets s1) \<and>
          p = stringify (JObject (map member (fileList s1))) \<and> take 1 p = ''{'')) \<and>
    trace (snd (readdir_cb cfg statSync (Some SendUpdateCb) (Inr files) s)) =
      trace s @ fill_logs cfg statSync files @
      map (\<lambda>c. Push c ''UPDATE_FILES''
                 (stringify (JObject (map member (fileList (fill_loop cfg statSync files 0 None s))))))
          (sockets s) \<and>
    trace (SendUpdate s) =
      trace s @ map (\<lambda>c. Push c ''UPDATE_FILES'' (stringify (JObject (map member (fileList s)))))
                 (sockets s)"
proof -
  have ok: "stored_ok (fileList s)"
    using assms by (rule reachable_stored_ok)
  have next_step: "\<forall>s'. step cfg s s' \<longrightarrow>
       extends s s' \<and> stored_ok (fileList s') \<and>
       (\<forall>c ev p. Push c ev p \<in> set (appended s s') \<longrightarrow>
          ev = ''UPDATE_FILES'' \<and> c \<in> set (sockets s') \<and>
          p = stringify (JObject (map member (fileList s'))) \<and> take 1 p = ''{'')"
  proof (intro allI impI)
    fix s'
    assume "step cfg s s'"
    then have st: "extends s s'" "list_all (sent_by s') (appended s s')" "stored_ok (fileList s')"
      using step_sent ok by blast+
    have "\<forall>c ev p. Push c ev p \<in> set (appended s s') \<longrightarrow>
          ev = ''UPDATE_FILES'' \<and> c \<in> set (sockets s') \<and>
          p = stringify (JObject (map member (fileList s'))) \<and> take 1 p = ''{''"
      using st(2) sent_by_Push unfolding list_all_iff by blast
    then show "extends s s' \<and> stored_ok (fileList s') \<and>
       (\<forall>c ev p. Push c ev p \<in> set (appended s s') \<longrightarrow>
          ev = ''UPDATE_FILES'' \<and> c \<in> set (sockets s') \<and>
          p = stringify (JObject (map member (fileList s'))) \<and> take 1 p = ''{'')"
      using st by blast
  qed
  have past: "\<forall>i c ev p. i < length (trace s) \<and> trace s ! i = Push c ev p \<longrightarrow>
       (\<exists>s0 s1. reachable cfg s0 \<and> step cfg s0 s1 \<and> length (trace s0) \<le> i \<and> i < length (trace s1)
          \<and> extends s1 s \<and> stored_ok (fileList s1) \<and>
          ev = ''UPDATE_FILES'' \<and> c \<in> set (sockets s1) \<and>
          p = stringify (JObject (map member (fileList s1))) \<and> take 1 p = ''{'')"
  proof (intro allI impI)
    fix i c ev p
    assume h: "i < length (trace s) \<and> trace s ! i = Push c ev p"
    obtain s0 s1 where o: "reachable cfg s0" "step cfg s0 s1" "length (trace s0) \<le> i"
        "i < length (trace s1)" "extends s1 s" "stored_ok (fileList s1)" "sent_by s1 (Push c ev p)"
      using push_origin [OF assms] h by blast
    show "\<exists>s0 s1. reachable cfg s0 \<and> step cfg s0 s1 \<and> length (trace s0) \<le> i \<and> i < length (trace s1)
          \<and> extends s1 s \<and> stored_ok (fileList s1) \<and>
          ev = ''UPDATE_FILES'' \<and> c \<in> set (sockets s1) \<and>
          p = stringify (JObject (map member (fileList s1))) \<and> take 1 p = ''{''"
      using o sent_by_Push [OF o(7)] by blast
  qed
  have cb: "trace (snd (readdir_cb cfg statSync (Some SendUpdateCb) (Inr files) s)) =
      trace s @ fill_logs cfg statSync files @
      map (\<lambda>c. Push c ''UPDATE_FILES''
                 (stringify (JObject (map member (fileList (fill_loop cfg statSync files 0 None s))))))
          (sockets s)"
    by (simp add: readdir_cb_def call_callback_def fill_loop_trace pushes_def fileList_json_member
        del: stringify.simps)
  have send: "trace (SendUpdate s) =
      trace s @ map (\<lambda>c. Push c ''UPDATE_FILES'' (stringify (JObject (map member (fileList s)))))
                 (sockets s)"
    by (simp add: pushes_def fileList_json_member del: stringify.simps)
  show ?thesis
    using ok next_step past cb send by blast
qed

theorem update_payload_is_indexed_object_witness:
  "reachable cfg0 served \<and> step cfg0 served (on_REQUEST_UPDATE 1 served) \<and>
   stored_ok (fileList served) \<and>
   Push 1 ''UPDATE_FILES'' (stringify (fileList_json [(0, a_txt)]))
     \<in> set (appended served (on_REQUEST_UPDATE 1 served)) \<and>
   stringify (fileList_json [(0, a_txt)]) =
     stringify (JObject [(''0'', JObject [(''name'', JString ''a.txt''), (''type'', JString ''f''),
                                          (''size'', JNumber 10)])]) \<and>
   take 1 (stringify (fileList_json [(0, a_txt)])) = ''{''"
proof -
  note t = update_payload_is_indexed_object [OF reachable_served]
  have st: "step cfg0 served (on_REQUEST_UPDATE 1 served)"
    by (rule step.request_update)
  have mem: "Push 1 ''UPDATE_FILES'' (stringify (fileList_json [(0, a_txt)]))
      \<in> set (appended served (on_REQUEST_UPDATE 1 served))"
    by (simp add: appended_def on_REQUEST_UPDATE_def pushes_def served_eq del: stringify.simps)
  have ok: "stored_ok (fileList served)"
    using t by blast
  have "\<forall>c ev p. Push c ev p \<in> set (appended served (on_REQUEST_UPDATE 1 served)) \<longrightarrow>
          ev = ''UPDATE_FILES'' \<and> c \<in> set (sockets (on_REQUEST_UPDATE 1 served)) \<and>
          p = stringify (JObject (map member (fileList (on_REQUEST_UPDATE 1 served)))) \<and>
          take 1 p = ''{''"
    using t st by blast
  then have p: "stringify (fileList_json [(0, a_txt)]) =
          stringify (JObject (map member (fileList (on_REQUEST_UPDATE 1 served))))"
      and h: "take 1 (stringify (fileList_json [(0, a_txt)])) = ''{''"
    using mem by blast+
  have m: "map member (fileList (on_REQUEST_UPDATE 1 served)) =
      [(''0'', JObject [(''name'', JString ''a.txt''), (''type'', JString ''f''), (''size'', JNumber 10)])]"
    by (simp add: on_REQUEST_UPDATE_def served_eq member_def a_txt_def show_nat_examples)
  show ?thesis
    using reachable_served st ok mem p h unfolding m by blast
qed

text \<open>
  The claim C5 as stated fails: with \<open>a.txt\<close> listed, the payload pushed on a request for
  an update is the text of the object with the one key \<open>0\<close>, which differs from the text of
  the array of the one entry.
\<close>

theorem payload_array_counterexample:
  "trace (on_REQUEST_UPDATE 1 served) =
     trace served @ [Push 1 ''UPDATE_FILES'' (stringify (fileList_json [(0, a_txt)]))] \<and>
   stringify (fileList_json [(0, a_txt)]) =
     ''{'' @ quote ''0'' @ '':{'' @ quote ''name'' @ '':'' @ quote ''a.txt'' @ '','' @ quote ''type''
       @ '':'' @ quote ''f'' @ '','' @ quote ''size'' @ '':10}}'' \<and>
   array_payload [a_txt] =
     ''[{'' @ quote ''name'' @ '':'' @ quote ''a.txt'' @ '','' @ quote ''type''
       @ '':'' @ quote ''f'' @ '','' @ quote ''size'' @ '':10}]'' \<and>
   stringify (fileList_json [(0, a_txt)]) \<noteq> array_payload [a_txt]"
  by (simp add: on_REQUEST_UPDATE_def pushes_def served_eq fileList_json_def entry_json_def
      array_payload_def a_txt_def show_nat_examples quote_plain)

subsection \<open>Entries that are neither files nor directories\<close>

text \<open>
  C6. The claim is that the build stores the entries in the order of the listing, with the
  kind \<open>f\<close> for a plain file and \<open>d\<close> for a directory and the reported size, and skips an
  entry whose metadata lookup fails or whose kind is neither. The program departs from it
  where an entry of another kind follows a file or a directory in the listing: for the
  listing of \<open>a.txt\<close> and the named pipe \<open>pipe\<close>, it stores \<open>pipe\<close> at index 1 as a
  file, the variable \<open>type\<close> still holding the kind of \<open>a.txt\<close>. With the pipe listed
  first, it is skipped.
\<close>

theorem fill_loop_keeps_previous_type:
  "readdir_done cfg0 fs0 (Inr [''a.txt'', ''pipe'']) (on_watch cfg0 300 ''change'' served) =
     served\<lparr>fileList := [(0, a_txt), (1, \<lparr>name = ''pipe'', type = ''f'', size_entry = 0\<rparr>)],
            last_date := Some 300,
            trace := trace served @
              [Readdir ''./files/'',
               Push 1 ''UPDATE_FILES''
                 (stringify (fileList_json
                    [(0, a_txt), (1, \<lparr>name = ''pipe'', type = ''f'', size_entry = 0\<rparr>)]))]\<rparr>
   \<and> fileList (readdir_done cfg0 fs0 (Inr [''pipe'', ''a.txt'']) (on_watch cfg0 300 ''change'' served))
       = [(1, a_txt)]
   \<and> listing_entries cfg0 fs0 [''a.txt'', ''pipe''] 0 = [(0, a_txt)]"
  by (simp add: served_eq on_watch_def prepareFileList_run run_def fx_def cfg0_def readdir_done_def
      run_handler_def readdir_cb_def call_callback_def fs0_def a_txt_def SendUpdate_def emit_def
      loop_body_def)

subsection \<open>Failure to bind the port\<close>

text \<open>
  C7. When the port cannot be bound, whatever the error, startup goes no further than the
  attempt to listen: only log lines follow it, no watcher is created, no directory reading
  is issued, no socket listener is set up, the file list stays empty, and nothing is left
  that would keep the process running.
\<close>

theorem listen_failure_aborts_startup:
  "lr = ListenFailed err \<Longrightarrow>
   \<not> keeps_running (startup cfg mkdir_err ssl_err lr now init) \<and>
   list_all (\<lambda>e. is_Log e \<or> e = Listen (port cfg)) (trace (startup cfg mkdir_err ssl_err lr now init)) \<and>
   fileList (startup cfg mkdir_err ssl_err lr now init) = [] \<and>
   last_date (startup cfg mkdir_err ssl_err lr now init) = None \<and>
   pending (startup cfg mkdir_err ssl_err lr now init) = [] \<and>
   \<not> listening (startup cfg mkdir_err ssl_err lr now init)"
  by (simp add: startup_def server_on_error_def Let_def keeps_running_def init_def is_Log_def
      is_Watch_def error_lines_def list_ex_iff uncaughtException_def split: option.splits)

theorem listen_failure_aborts_startup_witness:
  "startup cfg0 None None (ListenFailed EADDRINUSE) 0 init =
     init\<lparr>trace := [Listen 8080, Log ''Failed to bind to config.port 8080.'']\<rparr> \<and>
   \<not> keeps_running (startup cfg0 None None (ListenFailed EADDRINUSE) 0 init) \<and>
   keeps_running (startup cfg0 None None (Bound ''0.0.0.0'') 0 init)"
proof -
  have e: "startup cfg0 None None (ListenFailed EADDRINUSE) 0 init =
     init\<lparr>trace := [Listen 8080, Log ''Failed to bind to config.port 8080.'']\<rparr>"
    by (simp add: startup_def server_on_error_def Let_def cfg0_def EADDRINUSE_def init_def
        show_nat_examples fx_def log_def)
  have k: "keeps_running (startup cfg0 None None (Bound ''0.0.0.0'') 0 init)"
    by (simp add: startup_def server_on_listening_def Let_def cfg0_def keeps_running_def
        createWatcher_def setupSockets_def prepareFileList_run)
  show ?thesis
    using listen_failure_aborts_startup [of "ListenFailed EADDRINUSE" EADDRINUSE cfg0 None None 0] e k
    by simp
qed

subsection \<open>A file request whose metadata lookup fails\<close>

text \<open>
  C9. When the metadata lookup of a file request fails, the callback writes the response
  500, ends the response, logs the error and pushes the file list, and then goes on into
  the statements for a successful lookup, where reading \<open>stats.size\<close> of the missing
  \<open>stats\<close> throws: the callback does not return, no line \<open>SEND\<close> is logged, no header 200
  is written and no file is streamed, and the exception reaches the handler for uncaught
  exceptions, which logs it.
\<close>

theorem file_request_stat_error_falls_through:
  "handleFileRequest_cb exponent_text socket path mimeType (Inl err) s =
     (Threw (TypeError ''Cannot read property size of undefined''),
      s\<lparr>trace := trace s @ [WriteHead 500 [], End None] @ error_lines err @ pushes s\<rparr>) \<and>
   handleFileRequest_cb exponent_text socket path mimeType (Inl err) s =
     send_file exponent_text socket path mimeType None
       (SendUpdate (handleError err (fx (End None) (fx (WriteHead 500 []) s)))) \<and>
   run_handler (handleFileRequest_cb exponent_text socket path mimeType (Inl err) s) =
     s\<lparr>trace := trace s @ [WriteHead 500 [], End None] @ error_lines err @ pushes s
          @ [Log ''=============== Uncaught exception! ===============''] @
          error_lines (TypeError ''Cannot read property size of undefined'')\<rparr>"
  by (simp add: handleFileRequest_cb_def send_file_def Let_def run_handler_def uncaughtException_def)

theorem file_request_stat_error_falls_through_witness:
  "handleFileRequest_cb (\<lambda>num den. ''2e+21'') ''10.0.0.2:4711'' ''./files/gone'' ''text/plain''
       (fs0 ''./files/gone'') served =
     (Threw (TypeError ''Cannot read property size of undefined''),
      served\<lparr>trace := trace served @
         [WriteHead 500 [], End None, Log ''ENOENT, no such file or directory'',
          Push 1 ''UPDATE_FILES'' (stringify (fileList_json [(0, a_txt)]))]\<rparr>)"
proof -
  have f: "fs0 ''./files/gone'' = Inl ENOENT"
    by (simp add: fs0_def)
  show ?thesis
    unfolding f
    using file_request_stat_error_falls_through
      [of "\<lambda>num den. ''2e+21''" "''10.0.0.2:4711''" "''./files/gone''" "''text/plain''" ENOENT served]
    by (simp add: error_lines_def ENOENT_def pushes_def served_eq)
qed

subsection \<open>The path of a new folder\<close>

lemma split_path_nonempty: "split_path p \<noteq> []"
  by (induction p) (auto split: list.splits)

lemma split_path_slash: "split_path (xs @ CHR ''/'' # ys) = split_path xs @ split_path ys"
proof (induction xs)
  case Nil
  then show ?case by simp
next
  case (Cons c xs)
  then show ?case
    using split_path_nonempty [of xs] by (auto split: list.splits)
qed

lemma resolve_append:
  "resolve a st (xs @ ys) = resolve a (resolve a st xs) ys"
  by (induction xs arbitrary: st) simp_all

lemma normalize_dir:
  assumes "d = d' @ ''/''"
  shows "normalize d = resolve (is_absolute d) [] (split_path d')"
proof -
  have "split_path d = split_path d' @ [[]]"
    unfolding assms using split_path_slash [of d' "[]"] by simp
  then show ?thesis
    by (simp add: normalize_def resolve_append)
qed

lemma is_absolute_append: "d \<noteq> [] \<Longrightarrow> is_absolute (d @ n) = is_absolute d"
  by (cases d) (simp_all add: is_absolute_def)

lemma normalize_up:
  assumes "d = d' @ ''/''" and "x = ''x'' \<or> x = ''y''"
  shows "normalize (d @ ''../'' @ x) = pop (is_absolute d) (normalize d) @ [x]"
proof -
  have ne: "d \<noteq> []"
    using assms by simp
  have e: "d @ ''../'' @ x = d' @ CHR ''/'' # (''..'' @ CHR ''/'' # x)"
    using assms by simp
  have sx: "split_path x = [x]"
    using assms(2) by auto
  have s: "split_path (d @ ''../'' @ x) = split_path d' @ [''..'', x]"
    unfolding e split_path_slash sx by simp
  have x: "x \<noteq> []" "x \<noteq> ''.''" "x \<noteq> ''..''"
    using assms(2) by auto
  show ?thesis
    unfolding normalize_def [of "d @ ''../'' @ x"] s is_absolute_append [OF ne] resolve_append
      normalize_dir [OF assms(1)]
    using x by (simp add: pop_def)
qed

lemma outside_up:
  assumes d: "d = d' @ ''/''" and x: "x = ''x'' \<or> x = ''y''" and r: "\<not> is_root d"
    and l: "normalize d \<noteq> [] \<longrightarrow> last (normalize d) \<noteq> x"
  shows "\<not> inside d (d @ ''../'' @ x)"
proof -
  define n where "n = normalize d"
  have q: "normalize (d @ ''../'' @ x) = pop (is_absolute d) n @ [x]"
    unfolding n_def by (rule normalize_up [OF d x])
  consider (empty) "n = []" | (up) "n \<noteq> []" "last n = ''..''" | (down) "n \<noteq> []" "last n \<noteq> ''..''"
    by blast
  then have "\<not> (take (length n) (pop (is_absolute d) n @ [x]) = n \<and>
              take 1 (drop (length n) (pop (is_absolute d) n @ [x])) \<noteq> [''..''])"
  proof cases
    case empty
    then have "\<not> is_absolute d"
      using r by (simp add: is_root_def n_def)
    then show ?thesis
      using empty by (simp add: pop_def)
  next
    case up
    then show ?thesis
      by (simp add: pop_def)
  next
    case down
    have ln: "last n \<noteq> x"
      using l down by (simp add: n_def)
    have len: "length (butlast n @ [x]) = length n"
      using down by simp
    have ne: "butlast n @ [x] \<noteq> n"
      using ln down by (metis last_snoc)
    have t: "take (length n) (butlast n @ [x]) = butlast n @ [x]"
      using len by (metis order_refl take_all)
    have p: "pop (is_absolute d) n = butlast n"
      using down by (simp add: pop_def)
    show ?thesis
      unfolding p t using ne by simp
  qed
  then show ?thesis
    unfolding inside_def Let_def n_def [symmetric] q by simp
qed

lemma normalize_slash: "d \<noteq> [] \<Longrightarrow> normalize (d @ ''/'') = normalize d"
proof -
  assume ne: "d \<noteq> []"
  have s: "split_path (d @ ''/'') = split_path d @ [[]]"
    using split_path_slash [of d "[]"] by simp
  show ?thesis
    unfolding normalize_def s is_absolute_append [OF ne] resolve_append by simp
qed

lemma inside_slash: "d \<noteq> [] \<Longrightarrow> inside (d @ ''/'') p = inside d p"
  by (simp add: inside_def normalize_slash)

lemma is_root_slash: "d \<noteq> [] \<Longrightarrow> is_root (d @ ''/'') = is_root d"
  by (simp add: is_root_def normalize_slash is_absolute_append)

lemma outside_exists_slash:
  assumes d: "dir = d @ ''/''" and r: "\<not> is_root dir"
  shows "\<exists>up. take 3 up = ''../'' \<and> \<not> inside dir (dir @ up)"
proof (cases "normalize dir \<noteq> [] \<and> last (normalize dir) = ''x''")
  case True
  have "\<not> inside dir (dir @ ''../'' @ ''y'')"
    using True by (intro outside_up [OF d _ r]) simp_all
  then show ?thesis
    by (intro exI [of _ "''../y''"]) simp
next
  case False
  have "\<not> inside dir (dir @ ''../'' @ ''x'')"
    using False by (intro outside_up [OF d _ r]) auto
  then show ?thesis
    by (intro exI [of _ "''../x''"]) simp
qed

lemma outside_exists:
  assumes r: "\<not> is_root dir"
  shows "\<exists>n. CHR ''/'' \<in> set n \<and> \<not> inside dir (dir @ n)"
proof (cases "dir = []")
  case True
  have "\<not> inside [] ''../x''"
    by (simp add: inside_def normalize_def is_absolute_def)
  then show ?thesis
    unfolding True by (intro exI [of _ "''../x''"]) simp
next
  case False
  have r': "\<not> is_root (dir @ ''/'')"
    using r False by (simp add: is_root_slash)
  obtain up where u: "\<not> inside (dir @ ''/'') ((dir @ ''/'') @ up)"
    using outside_exists_slash [OF refl r'] by blast
  have "\<not> inside dir (dir @ (''/'' @ up))"
    using u False by (simp add: inside_slash)
  then show ?thesis
    by (intro exI [of _ "''/'' @ up"]) simp
qed

text \<open>
  C10. For every folder name received in a \<open>CREATE_FOLDER\<close> message, the path handed to
  the directory creation is the configured directory path followed by the name, character
  for character, whatever the name holds. And for every configured directory path other
  than the root, there is a name with a slash in it for which that path lies outside the
  configured directory; when the configured path ends with a slash, there is such a name
  beginning with \<open>../\<close>.
\<close>

theorem create_folder_path_unchecked:
  "trace (on_CREATE_FOLDER cfg c nm s) = trace s @ [Mkdir (filesDir cfg @ nm)] \<and>
   (\<not> is_root (filesDir cfg) \<longrightarrow>
      (\<exists>n. CHR ''/'' \<in> set n \<and> \<not> inside (filesDir cfg) (filesDir cfg @ n))) \<and>
   (filesDir cfg = d @ ''/'' \<and> \<not> is_root (filesDir cfg) \<longrightarrow>
      (\<exists>up. take 3 up = ''../'' \<and> \<not> inside (filesDir cfg) (filesDir cfg @ up)))"
proof -
  have a: "trace (on_CREATE_FOLDER cfg c nm s) = trace s @ [Mkdir (filesDir cfg @ nm)]"
    by (simp add: on_CREATE_FOLDER_def)
  show ?thesis
    using a outside_exists [of "filesDir cfg"] outside_exists_slash [of "filesDir cfg" d]
    by blast
qed

theorem create_folder_path_unchecked_witness:
  "filesDir cfg0 = ''./files'' @ ''/'' \<and> \<not> is_root (filesDir cfg0) \<and>
   trace (on_CREATE_FOLDER cfg0 1 ''../x'' served) = trace served @ [Mkdir ''./files/../x''] \<and>
   normalize ''./files/../x'' = [''x''] \<and> normalize ''./files/'' = [''files''] \<and>
   \<not> inside ''./files/'' ''./files/../x'' \<and> inside ''./files/'' ''./files/new'' \<and>
   (\<exists>up. take 3 up = ''../'' \<and> \<not> inside (filesDir cfg0) (filesDir cfg0 @ up))"
proof -
  have n1: "normalize ''./files/../x'' = [''x'']"
    by (simp add: normalize_def is_absolute_def)
  have n2: "normalize ''./files/'' = [''files'']"
    by (simp add: normalize_def is_absolute_def)
  have n3: "normalize ''./files/new'' = [''files'', ''new'']"
    by (simp add: normalize_def is_absolute_def)
  have r: "\<not> is_root (filesDir cfg0)"
    by (simp add: is_root_def is_absolute_def cfg0_def)
  have d: "filesDir cfg0 = ''./files'' @ ''/''"
    by (simp add: cfg0_def)
  show ?thesis
    using create_folder_path_unchecked [of cfg0 1 "''../x''" served "''./files''"] r d
    by (simp add: inside_def n1 n2 n3 cfg0_def)
qed

end
